theory Spec2Isabelle
  imports Main
begin

section \<open>Domain enumerations (domain.py)\<close>

datatype WorkflowPhase =
    IDLE
  | RECEIVING_DESCRIPTION
  | GENERATING_CHECKLIST
  | PRESENTING_INITIAL_CHECKLIST
  | ASKING_REFINEMENT_QUESTIONS
  | AWAITING_USER_RESPONSE
  | PROCESSING_FEEDBACK
  | UPDATING_CHECKLIST
  | PRESENTING_REVISED_CHECKLIST
  | CHECK_APPROVAL
  | SAVING_CHECKLIST
  | CONFIRMING_SAVE
  | LISTENING_FOR_PROGRESS
  | RECEIVING_USER_INPUT
  | INTERPRETING_INTENT
  | ASKING_CLARIFICATION
  | LOGGING_CONTEXT
  | PERSISTING_UPDATE
  | ACKNOWLEDGING_PROGRESS
  | CHECKING_COMPLETION
  | GENERATING_SUMMARY
  | PRESENTING_SUMMARY
  | SESSION_COMPLETE

datatype ChecklistItemStatus = PENDING | IN_PROGRESS | COMPLETE

datatype ConversationEntryKind = SYSTEM | USER | AGENT | PROGRESS

datatype SkillName =
    GENERATE_INITIAL_CHECKLIST
  | GENERATE_REFINEMENT_QUESTIONS
  | INCORPORATE_REFINEMENTS
  | INTERPRET_PROGRESS_UPDATE
  | GENERATE_COMPLETION_SUMMARY

datatype DecisionType = DT_LLM_SKILL | DT_TOOL | DT_COMPLETE | DT_NOOP

text \<open>The \<^verbatim>\<open>.value\<close> of a skill name, as stored in conversation metadata.\<close>

fun skill_value :: "SkillName \<Rightarrow> string" where
  "skill_value GENERATE_INITIAL_CHECKLIST = ''generate_initial_checklist''"
| "skill_value GENERATE_REFINEMENT_QUESTIONS = ''generate_refinement_questions''"
| "skill_value INCORPORATE_REFINEMENTS = ''incorporate_refinements''"
| "skill_value INTERPRET_PROGRESS_UPDATE = ''interpret_progress_update''"
| "skill_value GENERATE_COMPLETION_SUMMARY = ''generate_completion_summary''"

definition MAX_REFINEMENT_QUESTIONS :: int where
  "MAX_REFINEMENT_QUESTIONS = 3"

text \<open>
  Values of Python's \<^verbatim>\<open>Any\<close> that the code stores in \<^verbatim>\<open>dict[str, Any]\<close> fields:
  strings, the nested dictionaries and lists a pydantic \<^verbatim>\<open>model_dump()\<close> returns, and
  the timestamps and enumeration members found inside such a dump.
\<close>

type_synonym datetime = int

datatype any =
    AnyNone
  | AnyStr string
  | AnyDatetime datetime
  | AnyStatus ChecklistItemStatus
  | AnyKind ConversationEntryKind
  | AnyList "any list"
  | AnyDict "(string \<times> any) list"

record Decision =
  decision_type :: DecisionType
  skill :: "SkillName option"
  reason :: string
  d_metadata :: "(string \<times> any) list"

text \<open>The class methods \<^verbatim>\<open>Decision.llm\<close> (called without metadata) and \<^verbatim>\<open>Decision.noop\<close>.\<close>

definition Decision_llm :: "SkillName \<Rightarrow> string \<Rightarrow> Decision" where
  "Decision_llm sk r =
     \<lparr>decision_type = DT_LLM_SKILL, skill = Some sk, reason = r, d_metadata = []\<rparr>"

definition Decision_noop :: "string \<Rightarrow> Decision" where
  "Decision_noop r =
     \<lparr>decision_type = DT_NOOP, skill = None, reason = r, d_metadata = []\<rparr>"

section \<open>Memory model (memory/models.py)\<close>

record ChecklistSubItem =
  sub_item_id :: string
  sub_summary :: string
  sub_detail :: "string option"
  sub_status :: ChecklistItemStatus
  sub_success_criteria :: "string option"
  sub_notes :: "string list"

record ChecklistItem =
  item_id :: string
  summary :: string
  detail :: "string option"
  status :: ChecklistItemStatus
  success_criteria :: "string option"
  item_notes :: "string list"
  sub_items :: "ChecklistSubItem list"

record RefinementPrompt =
  question :: string
  intent :: string

record RefinementExchange =
  rx_question :: string
  rx_answer :: string
  rx_intent :: string
  collected_at :: datetime

record ConversationEntry =
  entry_id :: string
  kind :: ConversationEntryKind
  content :: string
  created_at :: datetime
  metadata :: "(string \<times> any) list"

record ProgressLogEntry =
  pl_entry_id :: string
  user_text :: string
  referenced_item_ids :: "string list"
  status_transitions :: "(string \<times> ChecklistItemStatus) list"
  sub_status_transitions :: "(string \<times> ChecklistItemStatus) list"
  contextual_notes :: "string option"
  recorded_at :: datetime

record CoreMemory =
  persona_name :: string
  mission :: string
  version :: string

record SemanticMemory =
  user_handle :: "string option"
  preferred_tone :: string
  timezone :: "string option"
  saved_preferences :: "(string \<times> any) list"

record WorkflowState =
  phase :: WorkflowPhase
  questions_asked :: int
  max_refinement_questions :: int
  checklist_finalized :: bool
  pending_save :: bool
  listening_started_at :: "datetime option"
  last_transition_at :: datetime
  awaiting_clarification :: bool

record WorkingMemory =
  original_description :: "string option"
  checklist_items :: "ChecklistItem list"
  refinement_questions :: "RefinementPrompt list"
  refinement_exchanges :: "RefinementExchange list"
  latest_user_message :: "string option"
  conversation_log :: "ConversationEntry list"
  progress_log :: "ProgressLogEntry list"
  checklist_file_path :: "string option"
  completion_summary :: "string option"
  clarification_prompt :: "string option"

record ResearchState =
  core :: CoreMemory
  semantic :: SemanticMemory
  workflow :: WorkflowState
  working :: WorkingMemory

record ChecklistArtifactItem =
  ai_summary :: string
  ai_detail :: "string option"
  ai_status :: ChecklistItemStatus
  ai_notes :: "string list"
  ai_sub_items :: "ChecklistSubItem list"

record ChecklistArtifact =
  task_description :: string
  art_created_at :: datetime
  art_items :: "ChecklistArtifactItem list"
  refinement_context :: "RefinementExchange list"
  art_progress_log :: "ProgressLogEntry list"
  completion_notes :: "string option"
  conversation_excerpt :: "ConversationEntry list"

section \<open>Structured skill outputs (skills/models.py)\<close>

record ChecklistSubBullet =
  csb_summary :: string
  csb_detail :: "string option"
  csb_success_criteria :: "string option"

record ChecklistBullet =
  cb_summary :: string
  cb_detail :: "string option"
  cb_success_criteria :: "string option"
  cb_sub_items :: "ChecklistSubBullet list"

record GenerateInitialChecklistOutput =
  gic_ai_response :: string
  gic_items :: "ChecklistBullet list"
  gic_risks :: "string list"

record RefinementQuestionModel =
  rq_question :: string
  rq_intent :: string
  rq_missing_detail :: "string option"

record GenerateRefinementQuestionsOutput =
  grq_ai_response :: string
  grq_questions :: "RefinementQuestionModel list"

datatype Action = Add | Update | Remove

record RefinementSubItemUpdateModel =
  rsu_sub_item_id :: "string option"
  rsu_action :: Action
  rsu_summary :: "string option"
  rsu_detail :: "string option"
  rsu_success_criteria :: "string option"

record RefinementUpdateModel =
  ru_item_id :: "string option"
  ru_action :: Action
  ru_summary :: "string option"
  ru_detail :: "string option"
  ru_success_criteria :: "string option"
  ru_sub_items :: "ChecklistSubBullet list"
  ru_sub_item_updates :: "RefinementSubItemUpdateModel list"

record IncorporateRefinementsOutput =
  ir_ai_response :: string
  ir_updates :: "RefinementUpdateModel list"
  ir_notes :: "string list"

record ProgressSignalModel =
  ps_item_ids :: "string list"
  ps_sub_item_ids :: "string list"
  ps_new_status :: "ChecklistItemStatus option"
  ps_note :: "string option"
  ps_context :: "string option"

record InterpretProgressUpdateOutput =
  ipu_ai_response :: string
  ipu_signals :: "ProgressSignalModel list"
  ipu_needs_clarification :: bool
  ipu_clarification_prompt :: "string option"

record CompletionSummaryOutput =
  cso_ai_response :: string
  cso_accomplishments :: "string list"
  cso_highlights :: "string list"
  cso_timeline :: "string list"

section \<open>The interpreter's clock and identifier source\<close>

text \<open>
  \<^verbatim>\<open>datetime.utcnow()\<close> and \<^verbatim>\<open>uuid4().hex\<close> read the outside world. A transition
  receives them as an environment: \<open>utcnow e k\<close> is the value of the \<open>k\<close>-th clock
  reading the transition makes and \<open>uuid4 e k\<close> the \<open>k\<close>-th identifier it draws. The model
  fields a pydantic default factory fills are filled from the environment where the
  object is constructed.
\<close>

record env =
  utcnow :: "nat \<Rightarrow> datetime"
  uuid4 :: "nat \<Rightarrow> string"

section \<open>The coordinator (engine/coordinator.py)\<close>

definition next_action :: "ResearchState \<Rightarrow> Decision" where
  "next_action state =
     (let ph = phase (workflow state) in
      if ph = GENERATING_CHECKLIST then
        Decision_llm GENERATE_INITIAL_CHECKLIST
          ''Transform the goal description into a checklist''
      else if ph = ASKING_REFINEMENT_QUESTIONS then
        (if questions_asked (workflow state) \<ge> max_refinement_questions (workflow state)
         then Decision_noop
           ''Awaiting user responses because refinement question limit was reached''
         else Decision_llm GENERATE_REFINEMENT_QUESTIONS
           ''Need up to three clarifying questions'')
      else if ph = PROCESSING_FEEDBACK then
        Decision_llm INCORPORATE_REFINEMENTS ''User provided refinement feedback''
      else if ph = INTERPRETING_INTENT then
        Decision_llm INTERPRET_PROGRESS_UPDATE ''Interpret the latest progress update''
      else if ph = GENERATING_SUMMARY then
        Decision_llm GENERATE_COMPLETION_SUMMARY
          ''All items complete; compile the final summary''
      else Decision_noop ''No LLM action required for the current phase'')"

section \<open>Python built-ins used by the state manager\<close>

text \<open>
  A \<open>char\<close> stands for a code point below 256, so a \<open>string\<close> is a Python \<^verbatim>\<open>str\<close> over
  Latin-1. \<open>py_isspace\<close> lists the code points of that range which \<^verbatim>\<open>str.isspace\<close>
  accepts; \<^verbatim>\<open>str.strip()\<close> removes them from both ends.
\<close>

definition py_isspace :: "char \<Rightarrow> bool" where
  "py_isspace c = ((of_char c :: nat) \<in> {9, 10, 11, 12, 13, 28, 29, 30, 31, 32, 133, 160})"

definition py_strip :: "string \<Rightarrow> string" where
  "py_strip s = rev (dropWhile py_isspace (rev (dropWhile py_isspace s)))"

text \<open>Truthiness of an \<^verbatim>\<open>str | None\<close> value, and the two shapes of \<^verbatim>\<open>x or y\<close> on it.\<close>

definition truthy :: "string option \<Rightarrow> bool" where
  "truthy x = (case x of None \<Rightarrow> False | Some s \<Rightarrow> s \<noteq> [])"

definition or_str :: "string option \<Rightarrow> string \<Rightarrow> string" where
  "or_str x y = (case x of None \<Rightarrow> y | Some s \<Rightarrow> if s \<noteq> [] then s else y)"

definition or_opt :: "string option \<Rightarrow> string option \<Rightarrow> string option" where
  "or_opt x y = (case x of None \<Rightarrow> y | Some s \<Rightarrow> if s \<noteq> [] then Some s else y)"

text \<open>The slice \<^verbatim>\<open>xs[-n:]\<close> for \<open>n > 0\<close>: the last \<open>n\<close> elements, or all of them.\<close>

definition py_last_n :: "nat \<Rightarrow> 'a list \<Rightarrow> 'a list" where
  "py_last_n n xs = drop (length xs - n) xs"

section \<open>State transitions (memory/state\_manager.py)\<close>

text \<open>
  Every transition starts from \<^verbatim>\<open>deepcopy(state)\<close> and returns the copy; as a value the
  copy is the state itself, and the updates the code makes on the copy are record
  updates of the result.
\<close>

definition log_append :: "ConversationEntry \<Rightarrow> ResearchState \<Rightarrow> ResearchState" where
  "log_append entry st =
     st\<lparr>working := (working st)\<lparr>conversation_log := conversation_log (working st) @ [entry]\<rparr>\<rparr>"

definition set_phase :: "WorkflowPhase \<Rightarrow> ResearchState \<Rightarrow> ResearchState" where
  "set_phase ph st = st\<lparr>workflow := (workflow st)\<lparr>phase := ph\<rparr>\<rparr>"

definition set_last_transition_at :: "datetime \<Rightarrow> ResearchState \<Rightarrow> ResearchState" where
  "set_last_transition_at t st = st\<lparr>workflow := (workflow st)\<lparr>last_transition_at := t\<rparr>\<rparr>"

definition create_initial_state :: "env \<Rightarrow> string option \<Rightarrow> ResearchState" where
  "create_initial_state e handle =
     \<lparr>core = \<lparr>persona_name = ''AI Checklist Agent'',
              mission = ''Transform user goals into measurable checklists, guide execution through dialogue, and summarize outcomes with documented context.'',
              version = ''1.0.0''\<rparr>,
      semantic = \<lparr>user_handle = handle, preferred_tone = ''collaborative'',
                  timezone = None, saved_preferences = []\<rparr>,
      workflow = \<lparr>phase = IDLE, questions_asked = 0,
                  max_refinement_questions = MAX_REFINEMENT_QUESTIONS,
                  checklist_finalized = False, pending_save = False,
                  listening_started_at = None, last_transition_at = utcnow e 0,
                  awaiting_clarification = False\<rparr>,
      working = \<lparr>original_description = None, checklist_items = [],
                 refinement_questions = [], refinement_exchanges = [],
                 latest_user_message = None, conversation_log = [], progress_log = [],
                 checklist_file_path = None, completion_summary = None,
                 clarification_prompt = None\<rparr>\<rparr>"

definition ingest_user_description :: "env \<Rightarrow> ResearchState \<Rightarrow> string \<Rightarrow> ResearchState" where
  "ingest_user_description e state description =
     (let sanitized = py_strip description in
      if sanitized = [] then state
      else
        log_append
          \<lparr>entry_id = uuid4 e 0, kind = USER, content = sanitized,
           created_at = utcnow e 1, metadata = []\<rparr>
          (set_last_transition_at (utcnow e 0)
            (set_phase GENERATING_CHECKLIST
              (state\<lparr>working := (working state)\<lparr>original_description := Some sanitized\<rparr>\<rparr>))))"

definition record_user_feedback :: "env \<Rightarrow> ResearchState \<Rightarrow> string \<Rightarrow> ResearchState" where
  "record_user_feedback e state feedback =
     (let sanitized = py_strip feedback in
      if sanitized = [] then state
      else
        log_append
          \<lparr>entry_id = uuid4 e 0, kind = USER, content = sanitized,
           created_at = utcnow e 1, metadata = []\<rparr>
          (set_last_transition_at (utcnow e 0)
            (set_phase PROCESSING_FEEDBACK
              (state\<lparr>working := (working state)\<lparr>latest_user_message := Some sanitized\<rparr>\<rparr>))))"

definition ingest_progress_input :: "env \<Rightarrow> ResearchState \<Rightarrow> string \<Rightarrow> ResearchState" where
  "ingest_progress_input e state user_message =
     (let sanitized = py_strip user_message in
      if sanitized = [] then state
      else
        log_append
          \<lparr>entry_id = uuid4 e 0, kind = USER, content = sanitized,
           created_at = utcnow e 1, metadata = []\<rparr>
          (set_last_transition_at (utcnow e 0)
            (set_phase INTERPRETING_INTENT
              (state\<lparr>working := (working state)\<lparr>latest_user_message := Some sanitized\<rparr>\<rparr>))))"

definition mark_checklist_approved :: "env \<Rightarrow> ResearchState \<Rightarrow> ResearchState" where
  "mark_checklist_approved e state =
     state\<lparr>workflow := (workflow state)
       \<lparr>checklist_finalized := True, phase := SAVING_CHECKLIST, pending_save := True,
        last_transition_at := utcnow e 0\<rparr>\<rparr>"

text \<open>
  With a non-empty reason the conversation entry is built before the phase is stamped,
  so it takes the first clock reading and the stamp the second.
\<close>

definition mark_checklist_rejected :: "env \<Rightarrow> ResearchState \<Rightarrow> string \<Rightarrow> ResearchState" where
  "mark_checklist_rejected e state reason_text =
     (let sanitized = py_strip reason_text in
      if sanitized \<noteq> [] then
        set_last_transition_at (utcnow e 1)
          (set_phase PROCESSING_FEEDBACK
            (log_append
              \<lparr>entry_id = uuid4 e 0, kind = USER, content = sanitized,
               created_at = utcnow e 0, metadata = []\<rparr> state))
      else
        set_last_transition_at (utcnow e 0) (set_phase PROCESSING_FEEDBACK state))"

definition activate_tracking_mode :: "env \<Rightarrow> ResearchState \<Rightarrow> ResearchState" where
  "activate_tracking_mode e state =
     (case listening_started_at (workflow state) of
        Some t \<Rightarrow>
          state\<lparr>workflow := (workflow state)
            \<lparr>phase := LISTENING_FOR_PROGRESS, listening_started_at := Some t,
             last_transition_at := utcnow e 0\<rparr>\<rparr>
      | None \<Rightarrow>
          state\<lparr>workflow := (workflow state)
            \<lparr>phase := LISTENING_FOR_PROGRESS, listening_started_at := Some (utcnow e 0),
             last_transition_at := utcnow e 1\<rparr>\<rparr>)"

definition acknowledge_progress_ack :: "env \<Rightarrow> ResearchState \<Rightarrow> ResearchState" where
  "acknowledge_progress_ack e state =
     state\<lparr>workflow := (workflow state)
             \<lparr>phase := LISTENING_FOR_PROGRESS, awaiting_clarification := False,
              last_transition_at := utcnow e 0\<rparr>,
           working := (working state)
             \<lparr>clarification_prompt := None, latest_user_message := None\<rparr>\<rparr>"

definition acknowledge_summary_delivery :: "env \<Rightarrow> ResearchState \<Rightarrow> ResearchState" where
  "acknowledge_summary_delivery e state =
     set_last_transition_at (utcnow e 0) (set_phase SESSION_COMPLETE state)"

text \<open>The loop of \<^verbatim>\<open>checklist_is_complete\<close>, leaving at the first incomplete entry.\<close>

fun items_all_complete :: "ChecklistItem list \<Rightarrow> bool" where
  "items_all_complete [] = True"
| "items_all_complete (item # rest) =
     (if status item \<noteq> COMPLETE then False
      else if list_ex (\<lambda>sub. sub_status sub \<noteq> COMPLETE) (sub_items item) then False
      else items_all_complete rest)"

definition checklist_is_complete :: "ResearchState \<Rightarrow> bool" where
  "checklist_is_complete state =
     (if checklist_items (working state) = [] then False
      else items_all_complete (checklist_items (working state)))"

subsection \<open>Building and recording the artifact\<close>

datatype error = ValueError string

definition build_artifact :: "env \<Rightarrow> ResearchState \<Rightarrow> error + ChecklistArtifact" where
  "build_artifact e state =
     (case original_description (working state) of
        None \<Rightarrow> Inl (ValueError ''Cannot persist checklist without an original description'')
      | Some description \<Rightarrow>
          Inr \<lparr>task_description = description,
               art_created_at = utcnow e 0,
               art_items =
                 map (\<lambda>item.
                       \<lparr>ai_summary = summary item, ai_detail = detail item,
                        ai_status = status item, ai_notes = item_notes item,
                        ai_sub_items =
                          map (\<lambda>sub.
                                \<lparr>sub_item_id = sub_item_id sub, sub_summary = sub_summary sub,
                                 sub_detail = sub_detail sub, sub_status = sub_status sub,
                                 sub_success_criteria = sub_success_criteria sub,
                                 sub_notes = sub_notes sub\<rparr>)
                            (sub_items item)\<rparr>)
                   (checklist_items (working state)),
               refinement_context = refinement_exchanges (working state),
               art_progress_log = progress_log (working state),
               completion_notes = completion_summary (working state),
               conversation_excerpt = py_last_n 10 (conversation_log (working state))\<rparr>)"

text \<open>
  pydantic's \<^verbatim>\<open>model_dump()\<close> of the artifact, which \<^verbatim>\<open>record_save_result\<close> stores as
  metadata: every model becomes a dictionary of its fields in declaration order.
\<close>

definition dump_opt :: "string option \<Rightarrow> any" where
  "dump_opt x = (case x of None \<Rightarrow> AnyNone | Some s \<Rightarrow> AnyStr s)"

definition dump_status_map :: "(string \<times> ChecklistItemStatus) list \<Rightarrow> any" where
  "dump_status_map m = AnyDict (map (\<lambda>(k, v). (k, AnyStatus v)) m)"

definition dump_sub_item :: "ChecklistSubItem \<Rightarrow> any" where
  "dump_sub_item sub =
     AnyDict [(''sub_item_id'', AnyStr (sub_item_id sub)),
              (''summary'', AnyStr (sub_summary sub)),
              (''detail'', dump_opt (sub_detail sub)),
              (''status'', AnyStatus (sub_status sub)),
              (''success_criteria'', dump_opt (sub_success_criteria sub)),
              (''notes'', AnyList (map AnyStr (sub_notes sub)))]"

definition dump_artifact_item :: "ChecklistArtifactItem \<Rightarrow> any" where
  "dump_artifact_item it =
     AnyDict [(''summary'', AnyStr (ai_summary it)),
              (''detail'', dump_opt (ai_detail it)),
              (''status'', AnyStatus (ai_status it)),
              (''notes'', AnyList (map AnyStr (ai_notes it))),
              (''sub_items'', AnyList (map dump_sub_item (ai_sub_items it)))]"

definition dump_exchange :: "RefinementExchange \<Rightarrow> any" where
  "dump_exchange x =
     AnyDict [(''question'', AnyStr (rx_question x)),
              (''answer'', AnyStr (rx_answer x)),
              (''intent'', AnyStr (rx_intent x)),
              (''collected_at'', AnyDatetime (collected_at x))]"

definition dump_progress_entry :: "ProgressLogEntry \<Rightarrow> any" where
  "dump_progress_entry p =
     AnyDict [(''entry_id'', AnyStr (pl_entry_id p)),
              (''user_text'', AnyStr (user_text p)),
              (''referenced_item_ids'', AnyList (map AnyStr (referenced_item_ids p))),
              (''status_transitions'', dump_status_map (status_transitions p)),
              (''sub_status_transitions'', dump_status_map (sub_status_transitions p)),
              (''contextual_notes'', dump_opt (contextual_notes p)),
              (''recorded_at'', AnyDatetime (recorded_at p))]"

definition dump_conversation_entry :: "ConversationEntry \<Rightarrow> any" where
  "dump_conversation_entry c =
     AnyDict [(''entry_id'', AnyStr (entry_id c)),
              (''kind'', AnyKind (kind c)),
              (''content'', AnyStr (content c)),
              (''created_at'', AnyDatetime (created_at c)),
              (''metadata'', AnyDict (metadata c))]"

definition model_dump :: "ChecklistArtifact \<Rightarrow> any" where
  "model_dump a =
     AnyDict [(''task_description'', AnyStr (task_description a)),
              (''created_at'', AnyDatetime (art_created_at a)),
              (''items'', AnyList (map dump_artifact_item (art_items a))),
              (''refinement_context'', AnyList (map dump_exchange (refinement_context a))),
              (''progress_log'', AnyList (map dump_progress_entry (art_progress_log a))),
              (''completion_notes'', dump_opt (completion_notes a)),
              (''conversation_excerpt'',
                 AnyList (map dump_conversation_entry (conversation_excerpt a)))]"

definition record_save_result ::
  "env \<Rightarrow> ResearchState \<Rightarrow> ChecklistArtifact \<Rightarrow> string \<Rightarrow> ResearchState" where
  "record_save_result e state artifact file_path =
     log_append
       \<lparr>entry_id = uuid4 e 0, kind = SYSTEM,
        content = ''Checklist saved to '' @ file_path,
        created_at = utcnow e 1,
        metadata = [(''artifact_summary'', model_dump artifact)]\<rparr>
       (state\<lparr>working := (working state)\<lparr>checklist_file_path := Some file_path\<rparr>,
              workflow := (workflow state)
                \<lparr>pending_save := False, phase := CONFIRMING_SAVE,
                 last_transition_at := utcnow e 0\<rparr>\<rparr>)"

subsection \<open>Refinement questions and the completion summary\<close>

text \<open>
  The handler stamps the transition (clock reading 0), logs the agent message (identifier
  0, reading 1) and then one entry per question (identifier and reading \<open>i + 1\<close> and
  \<open>i + 2\<close> for the question at position \<open>i\<close>).
\<close>

definition handle_generate_refinement_questions ::
  "env \<Rightarrow> ResearchState \<Rightarrow> GenerateRefinementQuestionsOutput \<Rightarrow> ResearchState" where
  "handle_generate_refinement_questions e state output =
     (let prompts = map (\<lambda>q. \<lparr>question = rq_question q, intent = rq_intent q\<rparr>)
                      (grq_questions output);
          agent_message = (if grq_ai_response output \<noteq> [] then grq_ai_response output
                           else ''Here are a few clarification questions.'')
      in state
          \<lparr>working := (working state)
             \<lparr>refinement_questions := prompts,
              conversation_log :=
                conversation_log (working state)
                @ [\<lparr>entry_id = uuid4 e 0, kind = AGENT, content = agent_message,
                    created_at = utcnow e 1,
                    metadata =
                      [(''skill'', AnyStr (skill_value GENERATE_REFINEMENT_QUESTIONS))]\<rparr>]
                @ map (\<lambda>(i, prompt).
                         \<lparr>entry_id = uuid4 e (i + 1), kind = AGENT,
                          content = question prompt,
                          created_at = utcnow e (i + 2), metadata = []\<rparr>)
                    (enumerate 0 prompts)\<rparr>,
           workflow := (workflow state)
             \<lparr>questions_asked := questions_asked (workflow state) + int (length prompts),
              phase := (if prompts \<noteq> [] then AWAITING_USER_RESPONSE else CHECK_APPROVAL),
              last_transition_at := utcnow e 0\<rparr>\<rparr>)"

definition handle_completion_summary ::
  "env \<Rightarrow> ResearchState \<Rightarrow> CompletionSummaryOutput \<Rightarrow> ResearchState" where
  "handle_completion_summary e state output =
     log_append
       \<lparr>entry_id = uuid4 e 0, kind = AGENT, content = cso_ai_response output,
        created_at = utcnow e 1,
        metadata = [(''skill'', AnyStr (skill_value GENERATE_COMPLETION_SUMMARY))]\<rparr>
       (state\<lparr>working := (working state)\<lparr>completion_summary := Some (cso_ai_response output)\<rparr>,
              workflow := (workflow state)
                \<lparr>phase := PRESENTING_SUMMARY, last_transition_at := utcnow e 0\<rparr>\<rparr>)"

subsection \<open>Decimal numerals: \<^verbatim>\<open>str(n)\<close> and \<^verbatim>\<open>int(s)\<close>\<close>

definition digit_char :: "nat \<Rightarrow> char" where
  "digit_char d = ''0123456789'' ! d"

definition digit_val :: "char \<Rightarrow> nat option" where
  "digit_val c =
     (let n = (of_char c :: nat) in if 48 \<le> n \<and> n \<le> 57 then Some (n - 48) else None)"

function str_nat :: "nat \<Rightarrow> string" where
  "str_nat n = (if n < 10 then [digit_char n] else str_nat (n div 10) @ [digit_char (n mod 10)])"
  by pat_completeness auto
termination
  by (relation "measure (\<lambda>n. n)") auto

declare str_nat.simps [simp del]

text \<open>The text an f-string inserts for an integer.\<close>

definition py_str :: "int \<Rightarrow> string" where
  "py_str i = (if i < 0 then CHR ''-'' # str_nat (nat (- i)) else str_nat (nat i))"

text \<open>
  \<^verbatim>\<open>int(s)\<close> in base 10, with \<open>None\<close> for \<^verbatim>\<open>ValueError\<close>: surrounding whitespace is
  dropped, one sign is allowed, and the digits may be grouped by single underscores.
  The whitespace \<^verbatim>\<open>int\<close> drops is not that of \<^verbatim>\<open>str.strip()\<close>: the separators 28 to 31
  stay and make the conversion fail. \<open>digits_value acc cs\<close> reads what follows a digit.

  The conversions between integers and text are the interpreter's with its limit on the
  length of a converted numeral switched off (\<^verbatim>\<open>sys.set_int_max_str_digits(0)\<close>). With
  the default limit of 4300 digits \<^verbatim>\<open>int\<close> and \<^verbatim>\<open>str\<close> raise \<^verbatim>\<open>ValueError\<close> on longer
  numerals; identifiers that carry such numerals are outside the model.
\<close>

definition int_isspace :: "char \<Rightarrow> bool" where
  "int_isspace c = ((of_char c :: nat) \<in> {9, 10, 11, 12, 13, 32, 133, 160})"

definition int_strip :: "string \<Rightarrow> string" where
  "int_strip s = rev (dropWhile int_isspace (rev (dropWhile int_isspace s)))"

fun digits_value :: "nat \<Rightarrow> string \<Rightarrow> nat option" where
  "digits_value acc [] = Some acc"
| "digits_value acc [c] =
     (case digit_val c of None \<Rightarrow> None | Some v \<Rightarrow> Some (acc * 10 + v))"
| "digits_value acc (c # d # cs) =
     (if c = CHR ''_'' then
        (case digit_val d of None \<Rightarrow> None | Some v \<Rightarrow> digits_value (acc * 10 + v) cs)
      else
        (case digit_val c of None \<Rightarrow> None | Some v \<Rightarrow> digits_value (acc * 10 + v) (d # cs)))"

definition parse_digits :: "string \<Rightarrow> nat option" where
  "parse_digits s =
     (case s of
        [] \<Rightarrow> None
      | c # cs \<Rightarrow> (case digit_val c of None \<Rightarrow> None | Some v \<Rightarrow> digits_value v cs))"

definition py_int :: "string \<Rightarrow> int option" where
  "py_int s =
     (case int_strip s of
        [] \<Rightarrow> None
      | c # cs \<Rightarrow>
          if c = CHR ''-'' then map_option (\<lambda>n. - int n) (parse_digits cs)
          else if c = CHR ''+'' then map_option int (parse_digits cs)
          else map_option int (parse_digits (c # cs)))"

subsection \<open>\<^verbatim>\<open>startswith\<close> and \<^verbatim>\<open>split\<close>\<close>

definition startswith :: "string \<Rightarrow> string \<Rightarrow> bool" where
  "startswith s p = (take (length p) s = p)"

text \<open>\<^verbatim>\<open>s.split(sep)\<close> for a one-character separator, and \<^verbatim>\<open>s.split(sep, 1)\<close>.\<close>

fun py_split :: "char \<Rightarrow> string \<Rightarrow> string list" where
  "py_split sep [] = [[]]"
| "py_split sep (c # cs) =
     (if c = sep then [] # py_split sep cs
      else (c # hd (py_split sep cs)) # tl (py_split sep cs))"

definition py_split_1 :: "char \<Rightarrow> string \<Rightarrow> string list" where
  "py_split_1 sep s =
     (if sep \<in> set s then [takeWhile (\<lambda>c. c \<noteq> sep) s, tl (dropWhile (\<lambda>c. c \<noteq> sep) s)]
      else [s])"

subsection \<open>Identifier generation\<close>

text \<open>
  \<open>max_item_index\<close> is the loop of \<^verbatim>\<open>_next_item_id\<close> over the keys of the dictionary,
  with the running \<^verbatim>\<open>max_index\<close> as accumulator. A key that starts with \<^verbatim>\<open>item-\<close>
  contains the separator, so \<^verbatim>\<open>split("-", 1)\<close> has an element at index 1.
\<close>

fun max_item_index :: "int \<Rightarrow> string list \<Rightarrow> int" where
  "max_item_index max_index [] = max_index"
| "max_item_index max_index (k # ks) =
     (if startswith k ''item-'' then
        (case py_int (py_split_1 CHR ''-'' k ! 1) of
           None \<Rightarrow> max_item_index max_index ks
         | Some idx \<Rightarrow> max_item_index (max max_index idx) ks)
      else max_item_index max_index ks)"

definition next_item_id :: "string list \<Rightarrow> string" where
  "next_item_id existing_ids = ''item-'' @ py_str (max_item_index 0 existing_ids + 1)"

fun max_sub_index :: "string \<Rightarrow> int \<Rightarrow> string list \<Rightarrow> int" where
  "max_sub_index pfx max_index [] = max_index"
| "max_sub_index pfx max_index (k # ks) =
     (if startswith k pfx then
        (case py_int (last (py_split CHR ''-'' k)) of
           None \<Rightarrow> max_sub_index pfx max_index ks
         | Some idx \<Rightarrow> max_sub_index pfx (max max_index idx) ks)
      else max_sub_index pfx max_index ks)"

definition next_sub_item_id :: "string \<Rightarrow> string list \<Rightarrow> string" where
  "next_sub_item_id parent_id existing_ids =
     parent_id @ ''-'' @ py_str (max_sub_index (parent_id @ ''-'') 0 existing_ids + 1)"

definition build_sub_items_from_bullets ::
  "string \<Rightarrow> ChecklistSubBullet list \<Rightarrow> ChecklistSubItem list" where
  "build_sub_items_from_bullets parent_id sub_bullets =
     map (\<lambda>(index, sub).
           \<lparr>sub_item_id = parent_id @ ''-'' @ py_str (int index + 1),
            sub_summary = csb_summary sub,
            sub_detail = csb_detail sub,
            sub_status = PENDING,
            sub_success_criteria = csb_success_criteria sub,
            sub_notes = []\<rparr>)
       (enumerate 0 sub_bullets)"

subsection \<open>Dictionaries that alias the entries of a list\<close>

text \<open>
  \<^verbatim>\<open>items_by_id\<close>, \<^verbatim>\<open>sub_map\<close> and \<^verbatim>\<open>sub_items_by_id\<close> are built by a
  comprehension over a list and hold the list's own objects, so for a key that occurs
  more than once the dictionary holds the last object with that key. Every later change
  keeps this: an added object is appended to the list and stored under its key, and a
  removal drops every object with the key from the list and the key from the dictionary.
  The keys are therefore the ids present in the list, a lookup is \<open>lookup_last\<close>, and an
  assignment through the looked-up object is \<open>update_last\<close> on the list.
\<close>

definition lookup_last :: "('a \<Rightarrow> bool) \<Rightarrow> 'a list \<Rightarrow> 'a option" where
  "lookup_last P xs = find P (rev xs)"

fun update_last :: "('a \<Rightarrow> bool) \<Rightarrow> ('a \<Rightarrow> 'a) \<Rightarrow> 'a list \<Rightarrow> 'a list" where
  "update_last P f [] = []"
| "update_last P f (x # xs) =
     (if list_ex P xs then x # update_last P f xs
      else if P x then f x # xs
      else x # xs)"

text \<open>Assignment \<^verbatim>\<open>d[k] = v\<close> on a dictionary kept in insertion order.\<close>

fun dict_set :: "'k \<Rightarrow> 'v \<Rightarrow> ('k \<times> 'v) list \<Rightarrow> ('k \<times> 'v) list" where
  "dict_set k v [] = [(k, v)]"
| "dict_set k v (p # ps) = (if fst p = k then (k, v) # ps else p # dict_set k v ps)"

subsection \<open>The initial checklist\<close>

definition handle_generate_initial_checklist ::
  "env \<Rightarrow> ResearchState \<Rightarrow> GenerateInitialChecklistOutput \<Rightarrow> ResearchState" where
  "handle_generate_initial_checklist e state output =
     (let items =
            map (\<lambda>(index, bullet).
                  let parent_id = ''item-'' @ py_str (int index + 1) in
                  \<lparr>item_id = parent_id,
                   summary = cb_summary bullet,
                   detail = cb_detail bullet,
                   status = PENDING,
                   success_criteria = cb_success_criteria bullet,
                   item_notes = [],
                   sub_items = build_sub_items_from_bullets parent_id (cb_sub_items bullet)\<rparr>)
              (enumerate 0 (gic_items output))
      in log_append
           \<lparr>entry_id = uuid4 e 0, kind = AGENT, content = gic_ai_response output,
            created_at = utcnow e 1,
            metadata = [(''skill'', AnyStr (skill_value GENERATE_INITIAL_CHECKLIST))]\<rparr>
           (state\<lparr>working := (working state)\<lparr>checklist_items := items\<rparr>,
                  workflow := (workflow state)
                    \<lparr>questions_asked := 0, phase := ASKING_REFINEMENT_QUESTIONS,
                     last_transition_at := utcnow e 0\<rparr>\<rparr>))"

subsection \<open>Incorporating refinements\<close>

text \<open>
  One pass of the loop of \<^verbatim>\<open>_apply_sub_item_updates\<close>: the sub-item list after one
  instruction. \<^verbatim>\<open>change.sub_item_id in sub_map\<close> is false for \<^verbatim>\<open>None\<close>.
\<close>

definition apply_sub_change ::
  "string \<Rightarrow> ChecklistSubItem list \<Rightarrow> RefinementSubItemUpdateModel \<Rightarrow> ChecklistSubItem list" where
  "apply_sub_change parent_id subs change =
     (if rsu_action change = Add then
        (if \<not> truthy (rsu_summary change) then subs
         else
           let new_id = or_str (rsu_sub_item_id change)
                          (next_sub_item_id parent_id (map sub_item_id subs))
           in subs @ [\<lparr>sub_item_id = new_id,
                        sub_summary = or_str (rsu_summary change) [],
                        sub_detail = rsu_detail change,
                        sub_status = PENDING,
                        sub_success_criteria = rsu_success_criteria change,
                        sub_notes = []\<rparr>])
      else
        (case rsu_sub_item_id change of
           None \<Rightarrow> subs
         | Some sid \<Rightarrow>
             if rsu_action change = Remove \<and> sid \<in> set (map sub_item_id subs) then
               filter (\<lambda>sub. sub_item_id sub \<noteq> sid) subs
             else if rsu_action change = Update \<and> sid \<in> set (map sub_item_id subs) then
               update_last (\<lambda>sub. sub_item_id sub = sid)
                 (\<lambda>sub. sub\<lparr>sub_summary := or_str (rsu_summary change) (sub_summary sub),
                            sub_detail := or_opt (rsu_detail change) (sub_detail sub),
                            sub_success_criteria :=
                              or_opt (rsu_success_criteria change) (sub_success_criteria sub)\<rparr>)
                 subs
             else subs))"

definition apply_sub_item_updates ::
  "ChecklistItem \<Rightarrow> RefinementSubItemUpdateModel list \<Rightarrow> ChecklistItem" where
  "apply_sub_item_updates item updates =
     (if updates = [] then item
      else item\<lparr>sub_items := foldl (apply_sub_change (item_id item)) (sub_items item) updates\<rparr>)"

text \<open>
  One pass of the loop of \<^verbatim>\<open>_handle_incorporate_refinements\<close>: the checklist after one
  instruction.
\<close>

definition apply_update :: "ChecklistItem list \<Rightarrow> RefinementUpdateModel \<Rightarrow> ChecklistItem list" where
  "apply_update items update =
     (if ru_action update = Add then
        (if \<not> truthy (ru_summary update) then items
         else
           let new_id = or_str (ru_item_id update) (next_item_id (map item_id items));
               new_item =
                 \<lparr>item_id = new_id,
                  summary = or_str (ru_summary update) [],
                  detail = ru_detail update,
                  status = PENDING,
                  success_criteria = ru_success_criteria update,
                  item_notes = [],
                  sub_items = build_sub_items_from_bullets new_id (ru_sub_items update)\<rparr>
           in items @ [if ru_sub_item_updates update \<noteq> []
                       then apply_sub_item_updates new_item (ru_sub_item_updates update)
                       else new_item])
      else
        (case ru_item_id update of
           None \<Rightarrow> items
         | Some iid \<Rightarrow>
             if ru_action update = Remove \<and> iid \<noteq> [] \<and> iid \<in> set (map item_id items) then
               filter (\<lambda>item. item_id item \<noteq> iid) items
             else if ru_action update = Update \<and> iid \<noteq> [] \<and> iid \<in> set (map item_id items) then
               update_last (\<lambda>item. item_id item = iid)
                 (\<lambda>item.
                    apply_sub_item_updates
                      (item\<lparr>summary := or_str (ru_summary update) (summary item),
                            detail := or_opt (ru_detail update) (detail item),
                            success_criteria :=
                              or_opt (ru_success_criteria update) (success_criteria item),
                            sub_items :=
                              (if ru_sub_items update \<noteq> []
                               then build_sub_items_from_bullets (item_id item) (ru_sub_items update)
                               else sub_items item)\<rparr>)
                      (ru_sub_item_updates update))
                 items
             else items))"

text \<open>
  The exchange built for the prompt at position \<open>i\<close> takes clock reading \<open>i\<close>; with
  \<open>n\<close> prompts the transition stamp is reading \<open>n\<close> and the agent entry reading \<open>n + 1\<close>.
\<close>

definition handle_incorporate_refinements ::
  "env \<Rightarrow> ResearchState \<Rightarrow> IncorporateRefinementsOutput \<Rightarrow> ResearchState" where
  "handle_incorporate_refinements e state output =
     (let items = foldl apply_update (checklist_items (working state)) (ir_updates output);
          answer_text = or_str (latest_user_message (working state)) [];
          prompts = refinement_questions (working state);
          n = length prompts
      in state
          \<lparr>working := (working state)
             \<lparr>checklist_items := items,
              refinement_exchanges :=
                refinement_exchanges (working state)
                @ map (\<lambda>(i, prompt).
                         \<lparr>rx_question = question prompt, rx_answer = answer_text,
                          rx_intent = intent prompt, collected_at = utcnow e i\<rparr>)
                    (enumerate 0 prompts),
              refinement_questions := [],
              latest_user_message := None,
              conversation_log :=
                conversation_log (working state)
                @ [\<lparr>entry_id = uuid4 e 0, kind = AGENT, content = ir_ai_response output,
                    created_at = utcnow e (n + 1),
                    metadata = [(''skill'', AnyStr (skill_value INCORPORATE_REFINEMENTS))]\<rparr>]\<rparr>,
           workflow := (workflow state)
             \<lparr>phase := CHECK_APPROVAL, last_transition_at := utcnow e n\<rparr>\<rparr>)"

subsection \<open>Interpreting a progress update\<close>

text \<open>What the loop body does to a looked-up item or sub-item: status, then note.\<close>

definition touch_item :: "ProgressSignalModel \<Rightarrow> ChecklistItem \<Rightarrow> ChecklistItem" where
  "touch_item signal item =
     (let item1 = (case ps_new_status signal of
                     None \<Rightarrow> item
                   | Some ns \<Rightarrow> if status item \<noteq> ns then item\<lparr>status := ns\<rparr> else item)
      in case ps_note signal of
           None \<Rightarrow> item1
         | Some n \<Rightarrow> if n \<noteq> [] then item1\<lparr>item_notes := item_notes item1 @ [n]\<rparr> else item1)"

definition touch_sub_item :: "ProgressSignalModel \<Rightarrow> ChecklistSubItem \<Rightarrow> ChecklistSubItem" where
  "touch_sub_item signal sub =
     (let sub1 = (case ps_new_status signal of
                    None \<Rightarrow> sub
                  | Some ns \<Rightarrow> if sub_status sub \<noteq> ns then sub\<lparr>sub_status := ns\<rparr> else sub)
      in case ps_note signal of
           None \<Rightarrow> sub1
         | Some n \<Rightarrow> if n \<noteq> [] then sub1\<lparr>sub_notes := sub_notes sub1 @ [n]\<rparr> else sub1)"

text \<open>
  \<^verbatim>\<open>sub_items_by_id\<close> ranges over the sub-items of all items, in list order; the object
  it holds for an id is the last one in that order.
\<close>

definition all_sub_items :: "ChecklistItem list \<Rightarrow> ChecklistSubItem list" where
  "all_sub_items items = concat (map sub_items items)"

definition update_last_sub ::
  "string \<Rightarrow> (ChecklistSubItem \<Rightarrow> ChecklistSubItem) \<Rightarrow> ChecklistItem list \<Rightarrow> ChecklistItem list" where
  "update_last_sub sid f items =
     update_last (\<lambda>item. list_ex (\<lambda>sub. sub_item_id sub = sid) (sub_items item))
       (\<lambda>item. item\<lparr>sub_items := update_last (\<lambda>sub. sub_item_id sub = sid) f (sub_items item)\<rparr>)
       items"

text \<open>The two inner loops of a signal, carrying the checklist and the transition map.\<close>

definition signal_item ::
  "ProgressSignalModel \<Rightarrow> ChecklistItem list \<times> (string \<times> ChecklistItemStatus) list \<Rightarrow> string
     \<Rightarrow> ChecklistItem list \<times> (string \<times> ChecklistItemStatus) list" where
  "signal_item signal acc iid =
     (case lookup_last (\<lambda>item. item_id item = iid) (fst acc) of
        None \<Rightarrow> acc
      | Some item \<Rightarrow>
          (update_last (\<lambda>item. item_id item = iid) (touch_item signal) (fst acc),
           dict_set iid (status (touch_item signal item)) (snd acc)))"

definition signal_sub_item ::
  "ProgressSignalModel \<Rightarrow> ChecklistItem list \<times> (string \<times> ChecklistItemStatus) list \<Rightarrow> string
     \<Rightarrow> ChecklistItem list \<times> (string \<times> ChecklistItemStatus) list" where
  "signal_sub_item signal acc sid =
     (case lookup_last (\<lambda>sub. sub_item_id sub = sid) (all_sub_items (fst acc)) of
        None \<Rightarrow> acc
      | Some sub \<Rightarrow>
          (update_last_sub sid (touch_sub_item signal) (fst acc),
           dict_set sid (sub_status (touch_sub_item signal sub)) (snd acc)))"

definition transition_map ::
  "ProgressSignalModel \<Rightarrow> ChecklistItem list
     \<Rightarrow> ChecklistItem list \<times> (string \<times> ChecklistItemStatus) list" where
  "transition_map signal items = foldl (signal_item signal) (items, []) (ps_item_ids signal)"

definition sub_transition_map ::
  "ProgressSignalModel \<Rightarrow> ChecklistItem list
     \<Rightarrow> ChecklistItem list \<times> (string \<times> ChecklistItemStatus) list" where
  "sub_transition_map signal items =
     foldl (signal_sub_item signal) (items, []) (ps_sub_item_ids signal)"

text \<open>
  One pass of the outer loop. The accumulator is the checklist, the progress log and
  the number of log entries this call has built so far, which numbers the identifier and
  the clock reading of the next one.
\<close>

definition apply_signal ::
  "env \<Rightarrow> string option
     \<Rightarrow> ChecklistItem list \<times> ProgressLogEntry list \<times> nat \<Rightarrow> ProgressSignalModel
     \<Rightarrow> ChecklistItem list \<times> ProgressLogEntry list \<times> nat" where
  "apply_signal e latest acc signal =
     (case acc of (items, plog, k) \<Rightarrow>
        let (items1, tmap) = transition_map signal items;
            (items2, smap) = sub_transition_map signal items1
        in if tmap \<noteq> [] then
             (items2,
              plog @ [\<lparr>pl_entry_id = uuid4 e k, user_text = or_str latest [],
                       referenced_item_ids = map fst tmap,
                       status_transitions = tmap,
                       sub_status_transitions = smap,
                       contextual_notes = ps_context signal,
                       recorded_at = utcnow e k\<rparr>],
              k + 1)
           else if smap \<noteq> [] then
             (items2,
              plog @ [\<lparr>pl_entry_id = uuid4 e k, user_text = or_str latest [],
                       referenced_item_ids = [],
                       status_transitions = [],
                       sub_status_transitions = smap,
                       contextual_notes = ps_context signal,
                       recorded_at = utcnow e k\<rparr>],
              k + 1)
           else (items2, plog, k))"

definition handle_interpret_progress_update ::
  "env \<Rightarrow> ResearchState \<Rightarrow> InterpretProgressUpdateOutput \<Rightarrow> ResearchState" where
  "handle_interpret_progress_update e state output =
     (case foldl (apply_signal e (latest_user_message (working state)))
             (checklist_items (working state), progress_log (working state), 0)
             (ipu_signals output) of
        (items, plog, k) \<Rightarrow>
          let st1 = log_append
                      \<lparr>entry_id = uuid4 e k, kind = AGENT, content = ipu_ai_response output,
                       created_at = utcnow e k,
                       metadata = [(''skill'', AnyStr (skill_value INTERPRET_PROGRESS_UPDATE))]\<rparr>
                      (state\<lparr>working := (working state)
                                \<lparr>checklist_items := items, progress_log := plog\<rparr>\<rparr>);
              st2 = (if ipu_needs_clarification output then
                       st1\<lparr>workflow := (workflow st1)
                              \<lparr>awaiting_clarification := True, phase := ASKING_CLARIFICATION\<rparr>,
                            working := (working st1)
                              \<lparr>clarification_prompt := ipu_clarification_prompt output\<rparr>\<rparr>
                     else
                       st1\<lparr>workflow := (workflow st1)
                              \<lparr>awaiting_clarification := False,
                               phase := (if checklist_is_complete st1 then GENERATING_SUMMARY
                                         else ACKNOWLEDGING_PROGRESS)\<rparr>,
                            working := (working st1)\<lparr>clarification_prompt := None\<rparr>\<rparr>)
          in set_last_transition_at (utcnow e (k + 1)) st2)"

subsection \<open>Notions used to state the properties\<close>

text \<open>
  What a checklist shows of its identifiers and of its statuses, and whether a signal
  names the id of an item or of a sub-item of the checklist.
\<close>

definition id_shape :: "ChecklistItem list \<Rightarrow> (string \<times> string list) list" where
  "id_shape items = map (\<lambda>item. (item_id item, map sub_item_id (sub_items item))) items"

definition statuses ::
  "ChecklistItem list \<Rightarrow> (ChecklistItemStatus \<times> ChecklistItemStatus list) list" where
  "statuses items = map (\<lambda>item. (status item, map sub_status (sub_items item))) items"

definition references_known :: "ChecklistItem list \<Rightarrow> ProgressSignalModel \<Rightarrow> bool" where
  "references_known items signal =
     (list_ex (\<lambda>iid. iid \<in> set (map item_id items)) (ps_item_ids signal)
      \<or> list_ex (\<lambda>sid. sid \<in> set (map sub_item_id (all_sub_items items)))
           (ps_sub_item_ids signal))"

text \<open>
  The uniqueness of identifiers: item ids are pairwise distinct, and so are the
  sub-item ids within each item.
\<close>

definition ids_unique :: "ChecklistItem list \<Rightarrow> bool" where
  "ids_unique items =
     (distinct (map item_id items)
      \<and> list_all (\<lambda>item. distinct (map sub_item_id (sub_items item))) items)"

text \<open>
  An add instruction collides when it is applied (it has a summary) and carries an
  explicit id that its list already holds. \<open>sub_adds_fresh\<close> and \<open>adds_fresh\<close> follow
  the two loops and say that no instruction collides with the list it meets at its
  turn; for an update instruction that is the sub-item list of the item it updates,
  after the replacement by the instruction's own bullets if it has any.
\<close>

definition sub_add_collides ::
  "ChecklistSubItem list \<Rightarrow> RefinementSubItemUpdateModel \<Rightarrow> bool" where
  "sub_add_collides subs change =
     (rsu_action change = Add \<and> truthy (rsu_summary change)
      \<and> truthy (rsu_sub_item_id change)
      \<and> or_str (rsu_sub_item_id change) [] \<in> set (map sub_item_id subs))"

fun sub_adds_fresh ::
  "string \<Rightarrow> ChecklistSubItem list \<Rightarrow> RefinementSubItemUpdateModel list \<Rightarrow> bool" where
  "sub_adds_fresh parent_id subs [] = True"
| "sub_adds_fresh parent_id subs (change # rest) =
     (\<not> sub_add_collides subs change
      \<and> sub_adds_fresh parent_id (apply_sub_change parent_id subs change) rest)"

definition update_collides :: "ChecklistItem list \<Rightarrow> RefinementUpdateModel \<Rightarrow> bool" where
  "update_collides items u =
     (if ru_action u = Add then
        truthy (ru_summary u)
        \<and> (let new_id = or_str (ru_item_id u) (next_item_id (map item_id items)) in
             (truthy (ru_item_id u) \<and> new_id \<in> set (map item_id items))
             \<or> \<not> sub_adds_fresh new_id
                    (build_sub_items_from_bullets new_id (ru_sub_items u))
                    (ru_sub_item_updates u))
      else if ru_action u = Update then
        (case ru_item_id u of
           None \<Rightarrow> False
         | Some iid \<Rightarrow>
             iid \<noteq> []
             \<and> (case lookup_last (\<lambda>item. item_id item = iid) items of
                  None \<Rightarrow> False
                | Some item \<Rightarrow>
                    \<not> sub_adds_fresh iid
                        (if ru_sub_items u \<noteq> []
                         then build_sub_items_from_bullets iid (ru_sub_items u)
                         else sub_items item)
                        (ru_sub_item_updates u)))
      else False)"

fun adds_fresh :: "ChecklistItem list \<Rightarrow> RefinementUpdateModel list \<Rightarrow> bool" where
  "adds_fresh items [] = True"
| "adds_fresh items (u # us) =
     (\<not> update_collides items u \<and> adds_fresh (apply_update items u) us)"

text \<open>No add instruction, of items or of sub-items, carries an explicit id.\<close>

definition generates_ids :: "RefinementUpdateModel list \<Rightarrow> bool" where
  "generates_ids us =
     list_all (\<lambda>u. \<not> (ru_action u = Add \<and> truthy (ru_item_id u))
                 \<and> list_all (\<lambda>c. \<not> (rsu_action c = Add \<and> truthy (rsu_sub_item_id c)))
                      (ru_sub_item_updates u)) us"

text \<open>
  \<open>decimal_numeral s n\<close>: the text \<open>s\<close> is the decimal numeral of the positive number
  \<open>n\<close>, as \<^verbatim>\<open>str\<close> writes it.
\<close>

definition decimal_numeral :: "string \<Rightarrow> nat \<Rightarrow> bool" where
  "decimal_numeral s n =
     (s \<noteq> [] \<and> list_all (\<lambda>c. c \<in> set ''0123456789'') s \<and> hd s \<noteq> CHR ''0''
      \<and> foldl (\<lambda>a c. a * 10 + (of_char c - 48)) 0 s = n)"

text \<open>The value a string of digits has, one digit at a time.\<close>

definition digit_step :: "nat \<Rightarrow> char \<Rightarrow> nat" where
  "digit_step a c = a * 10 + (case digit_val c of None \<Rightarrow> 0 | Some v \<Rightarrow> v)"

section \<open>Example values\<close>

definition example_env :: env where
  "example_env = \<lparr>utcnow = (\<lambda>k. 1000 + int k), uuid4 = (\<lambda>k. replicate (Suc k) CHR ''u'')\<rparr>"

definition example_state :: ResearchState where
  "example_state = create_initial_state example_env None"

definition example_entry :: "string \<Rightarrow> ConversationEntry" where
  "example_entry text =
     \<lparr>entry_id = text, kind = USER, content = text, created_at = 7, metadata = []\<rparr>"

definition twelve_entries :: "ConversationEntry list" where
  "twelve_entries =
     map example_entry
       [''a'', ''b'', ''c'', ''d'', ''e'', ''f'', ''g'', ''h'', ''i'', ''j'', ''k'', ''l'']"

definition state_with_log :: ResearchState where
  "state_with_log =
     example_state\<lparr>working := (working example_state)
       \<lparr>original_description := Some ''Launch v2'', conversation_log := twelve_entries\<rparr>\<rparr>"

definition blank_text :: string where
  "blank_text = [CHR '' '', CHR 0x09, CHR 0x0A]"


definition example_item :: "string \<Rightarrow> ChecklistItem" where
  "example_item iid =
     \<lparr>item_id = iid, summary = ''Write spec'', detail = None, status = PENDING,
      success_criteria = None, item_notes = [], sub_items = []\<rparr>"

definition three_items_state :: ResearchState where
  "three_items_state =
     example_state\<lparr>working := (working example_state)
       \<lparr>checklist_items := map example_item [''item-1'', ''item-2'', ''item-3'']\<rparr>\<rparr>"

definition instruction :: "Action \<Rightarrow> string option \<Rightarrow> string option \<Rightarrow> RefinementUpdateModel" where
  "instruction act iid text =
     \<lparr>ru_item_id = iid, ru_action = act, ru_summary = text, ru_detail = None,
      ru_success_criteria = None, ru_sub_items = [], ru_sub_item_updates = []\<rparr>"

definition refinement_output :: "RefinementUpdateModel list \<Rightarrow> IncorporateRefinementsOutput" where
  "refinement_output us = \<lparr>ir_ai_response = ''Updated.'', ir_updates = us, ir_notes = []\<rparr>"


definition progress_output :: "ProgressSignalModel list \<Rightarrow> InterpretProgressUpdateOutput" where
  "progress_output sigs =
     \<lparr>ipu_ai_response = ''Noted.'', ipu_signals = sigs, ipu_needs_clarification = False,
      ipu_clarification_prompt = None\<rparr>"

definition item_signal ::
  "string \<Rightarrow> ChecklistItemStatus option \<Rightarrow> string option \<Rightarrow> ProgressSignalModel" where
  "item_signal iid st text =
     \<lparr>ps_item_ids = [iid], ps_sub_item_ids = [], ps_new_status = st, ps_note = text,
      ps_context = None\<rparr>"


definition sub_instruction ::
  "Action \<Rightarrow> string option \<Rightarrow> string option \<Rightarrow> RefinementSubItemUpdateModel" where
  "sub_instruction act sid text =
     \<lparr>rsu_sub_item_id = sid, rsu_action = act, rsu_summary = text, rsu_detail = None,
      rsu_success_criteria = None\<rparr>"

definition sub_bullet :: "string \<Rightarrow> ChecklistSubBullet" where
  "sub_bullet text = \<lparr>csb_summary = text, csb_detail = None, csb_success_criteria = None\<rparr>"


definition unnamed_item_state :: ResearchState where
  "unnamed_item_state =
     example_state\<lparr>working := (working example_state)
       \<lparr>checklist_items := [example_item []]\<rparr>\<rparr>"

definition bullet :: "string \<Rightarrow> ChecklistSubBullet list \<Rightarrow> ChecklistBullet" where
  "bullet text subs =
     \<lparr>cb_summary = text, cb_detail = None, cb_success_criteria = None, cb_sub_items = subs\<rparr>"

definition checklist_output :: "ChecklistBullet list \<Rightarrow> GenerateInitialChecklistOutput" where
  "checklist_output bs = \<lparr>gic_ai_response = ''Here is a plan.'', gic_items = bs, gic_risks = []\<rparr>"

definition eleven_bullets :: "ChecklistBullet list" where
  "eleven_bullets =
     [bullet ''Step 1'' [], bullet ''Step 2'' [], bullet ''Step 3'' [], bullet ''Step 4'' [],
      bullet ''Step 5'' [], bullet ''Step 6'' [], bullet ''Step 7'' [], bullet ''Step 8'' [],
      bullet ''Step 9'' [], bullet ''Step 10'' [],
      bullet ''Write spec'' [sub_bullet ''Draft'', sub_bullet ''Review'']]"

definition described_state :: ResearchState where
  "described_state = ingest_user_description example_env example_state ''Launch v2''"

text \<open>A checklist with an id whose numeral ends in the unit separator (code point 31).\<close>

definition separator_state :: ResearchState where
  "separator_state =
     example_state\<lparr>working := (working example_state)
       \<lparr>checklist_items := [example_item ''item-1'', example_item (''item-5'' @ [CHR 0x1F])]\<rparr>\<rparr>"

section \<open>Properties\<close>

subsection \<open>Blank text\<close>

lemma py_strip_empty_iff: "(py_strip s = []) = list_all py_isspace s"
  unfolding py_strip_def
  by (induction s) (auto simp: list_all_iff)

lemma blank_text_isspace: "list_all py_isspace blank_text"
  by (simp add: blank_text_def py_isspace_def)

text \<open>
  Claim C2. When the text consists of whitespace only (the empty text included), each
  of the three text-ingestion transitions returns the state it was given: phase,
  conversation log, working memory and \<open>last_transition_at\<close> are those of the input.
\<close>

theorem blank_text_ingestion_is_identity:
  assumes "list_all py_isspace text"
  shows "ingest_user_description e state text = state
       \<and> record_user_feedback e state text = state
       \<and> ingest_progress_input e state text = state"
  using assms
  by (simp add: ingest_user_description_def record_user_feedback_def
        ingest_progress_input_def py_strip_empty_iff)

theorem blank_text_ingestion_is_identity_witness:
  "ingest_user_description example_env example_state blank_text = example_state
   \<and> record_user_feedback example_env example_state blank_text = example_state
   \<and> ingest_progress_input example_env example_state blank_text = example_state
   \<and> ingest_user_description example_env example_state [] = example_state"
  using blank_text_ingestion_is_identity [OF blank_text_isspace, of example_env example_state]
    blank_text_ingestion_is_identity [of "[]" example_env example_state]
  by simp

text \<open>
  Claim C10. Rejecting the checklist with a blank reason still moves the phase to
  \<open>PROCESSING_FEEDBACK\<close> and stamps \<open>last_transition_at\<close> with the clock; nothing else
  changes, so no conversation entry is appended.
\<close>

theorem reject_with_blank_reason:
  assumes "list_all py_isspace reason_text"
  shows "mark_checklist_rejected e state reason_text =
           state\<lparr>workflow := (workflow state)
             \<lparr>phase := PROCESSING_FEEDBACK, last_transition_at := utcnow e 0\<rparr>\<rparr>"
  using assms
  by (simp add: mark_checklist_rejected_def py_strip_empty_iff set_phase_def
        set_last_transition_at_def)

theorem reject_with_blank_reason_witness:
  "phase (workflow (mark_checklist_rejected example_env example_state blank_text))
     = PROCESSING_FEEDBACK
   \<and> last_transition_at (workflow (mark_checklist_rejected example_env example_state blank_text))
     = 1000
   \<and> phase (workflow example_state) = IDLE
   \<and> working (mark_checklist_rejected example_env example_state blank_text)
     = working example_state"
  using reject_with_blank_reason [OF blank_text_isspace, of example_env example_state]
  by (simp add: example_env_def example_state_def create_initial_state_def)

subsection \<open>Completion of the checklist\<close>

lemma items_all_complete_iff:
  "items_all_complete items =
     list_all (\<lambda>item. status item = COMPLETE
                 \<and> list_all (\<lambda>sub. sub_status sub = COMPLETE) (sub_items item)) items"
  by (induction items) (auto simp: list_ex_iff list_all_iff)

text \<open>
  Claim C4. \<open>checklist_is_complete\<close> holds exactly when the item list is non-empty,
  every item is \<open>COMPLETE\<close> and every sub-item of every item is \<open>COMPLETE\<close>.
\<close>

theorem checklist_is_complete_iff:
  "checklist_is_complete state =
     (checklist_items (working state) \<noteq> []
      \<and> list_all (\<lambda>item. status item = COMPLETE
                   \<and> list_all (\<lambda>sub. sub_status sub = COMPLETE) (sub_items item))
          (checklist_items (working state)))"
  by (simp add: checklist_is_complete_def items_all_complete_iff)

subsection \<open>Refinement questions\<close>

text \<open>
  Claim C5. With \<open>N\<close> questions in the output, the handler adds \<open>N\<close> to
  \<open>questions_asked\<close>, replaces the pending prompts by the \<open>N\<close> prompts of the output in
  order, and sets the phase to \<open>AWAITING_USER_RESPONSE\<close> when \<open>N > 0\<close> and to
  \<open>CHECK_APPROVAL\<close> when \<open>N = 0\<close>.
\<close>

theorem refinement_questions_produced:
  "questions_asked (workflow (handle_generate_refinement_questions e state output))
     = questions_asked (workflow state) + int (length (grq_questions output))
   \<and> refinement_questions (working (handle_generate_refinement_questions e state output))
     = map (\<lambda>q. \<lparr>question = rq_question q, intent = rq_intent q\<rparr>) (grq_questions output)
   \<and> length (refinement_questions (working (handle_generate_refinement_questions e state output)))
     = length (grq_questions output)
   \<and> phase (workflow (handle_generate_refinement_questions e state output))
     = (if 0 < length (grq_questions output) then AWAITING_USER_RESPONSE else CHECK_APPROVAL)"
  by (simp add: handle_generate_refinement_questions_def Let_def)

subsection \<open>The coordinator's ceiling on questions\<close>

text \<open>
  Claim C6. In phase \<open>ASKING_REFINEMENT_QUESTIONS\<close> the coordinator returns, while
  \<open>questions_asked\<close> is below \<open>max_refinement_questions\<close>, the decision of type
  \<open>DT_LLM_SKILL\<close> for the skill \<open>GENERATE_REFINEMENT_QUESTIONS\<close>, and once
  \<open>questions_asked\<close> has reached \<open>max_refinement_questions\<close> the decision of type
  \<open>DT_NOOP\<close>, which names no skill. The decision is given field by field; it depends on
  no other field of the state, the checklist included.
\<close>

theorem asking_refinement_questions_decision:
  assumes "phase (workflow state) = ASKING_REFINEMENT_QUESTIONS"
  shows "next_action state =
     (if questions_asked (workflow state) < max_refinement_questions (workflow state)
      then \<lparr>decision_type = DT_LLM_SKILL,
            skill = Some GENERATE_REFINEMENT_QUESTIONS,
            reason = ''Need up to three clarifying questions'',
            d_metadata = []\<rparr>
      else \<lparr>decision_type = DT_NOOP,
            skill = None,
            reason = ''Awaiting user responses because refinement question limit was reached'',
            d_metadata = []\<rparr>)"
  using assms by (simp add: next_action_def Let_def Decision_llm_def Decision_noop_def)

theorem asking_refinement_questions_decision_witness:
  "decision_type (next_action (three_items_state\<lparr>workflow := (workflow three_items_state)
      \<lparr>phase := ASKING_REFINEMENT_QUESTIONS, questions_asked := 3\<rparr>\<rparr>)) = DT_NOOP
   \<and> skill (next_action (three_items_state\<lparr>workflow := (workflow three_items_state)
      \<lparr>phase := ASKING_REFINEMENT_QUESTIONS, questions_asked := 3\<rparr>\<rparr>)) = None
   \<and> decision_type (next_action (example_state\<lparr>workflow := (workflow example_state)
      \<lparr>phase := ASKING_REFINEMENT_QUESTIONS, questions_asked := 4\<rparr>\<rparr>)) = DT_NOOP
   \<and> decision_type (next_action (three_items_state\<lparr>workflow := (workflow three_items_state)
      \<lparr>phase := ASKING_REFINEMENT_QUESTIONS, questions_asked := 2\<rparr>\<rparr>)) = DT_LLM_SKILL
   \<and> skill (next_action (three_items_state\<lparr>workflow := (workflow three_items_state)
      \<lparr>phase := ASKING_REFINEMENT_QUESTIONS, questions_asked := 2\<rparr>\<rparr>))
      = Some GENERATE_REFINEMENT_QUESTIONS
   \<and> max_refinement_questions (workflow three_items_state) = 3"
  using asking_refinement_questions_decision
          [of "three_items_state\<lparr>workflow := (workflow three_items_state)
                 \<lparr>phase := ASKING_REFINEMENT_QUESTIONS, questions_asked := 3\<rparr>\<rparr>"]
        asking_refinement_questions_decision
          [of "example_state\<lparr>workflow := (workflow example_state)
                 \<lparr>phase := ASKING_REFINEMENT_QUESTIONS, questions_asked := 4\<rparr>\<rparr>"]
        asking_refinement_questions_decision
          [of "three_items_state\<lparr>workflow := (workflow three_items_state)
                 \<lparr>phase := ASKING_REFINEMENT_QUESTIONS, questions_asked := 2\<rparr>\<rparr>"]
  by (simp add: three_items_state_def example_state_def create_initial_state_def
        MAX_REFINEMENT_QUESTIONS_def)

subsection \<open>The artifact\<close>

text \<open>
  Claim C9. \<open>build_artifact\<close> fails, with the \<open>ValueError\<close> that reports the missing
  description, exactly when \<open>original_description\<close> is unset. When it is set the result
  is an artifact for that description whose conversation excerpt is the suffix of the
  conversation log holding its last ten entries, or the whole log when it has fewer.
  The function returns no state, so the state is as it was.
\<close>

theorem build_artifact_contract:
  "(build_artifact e state
      = Inl (ValueError ''Cannot persist checklist without an original description''))
     = (original_description (working state) = None)
   \<and> isl (build_artifact e state) = (original_description (working state) = None)
   \<and> (\<forall>d. original_description (working state) = Some d \<longrightarrow>
        (\<exists>a. build_artifact e state = Inr a
           \<and> task_description a = d
           \<and> length (conversation_excerpt a)
               = min 10 (length (conversation_log (working state)))
           \<and> take (length (conversation_log (working state)) - 10)
                 (conversation_log (working state)) @ conversation_excerpt a
               = conversation_log (working state)))"
  by (cases "original_description (working state)")
     (auto simp: build_artifact_def py_last_n_def)

theorem build_artifact_contract_witness:
  "(\<exists>a. build_artifact example_env state_with_log = Inr a
      \<and> task_description a = ''Launch v2''
      \<and> length (conversation_excerpt a) = 10
      \<and> [example_entry ''a'', example_entry ''b''] @ conversation_excerpt a = twelve_entries)
   \<and> isl (build_artifact example_env example_state)"
  using build_artifact_contract [of example_env state_with_log]
        build_artifact_contract [of example_env example_state]
  by (auto simp: state_with_log_def twelve_entries_def example_state_def
        create_initial_state_def)

subsection \<open>Decimal numerals\<close>

lemma digit_val_digit_char: "d < 10 \<Longrightarrow> digit_val (digit_char d) = Some d"
proof -
  assume "d < 10"
  then have "d \<in> {0, 1, 2, 3, 4, 5, 6, 7, 8, 9}" by auto
  then show ?thesis by (auto simp: digit_val_def digit_char_def)
qed

lemma digit_val_facts:
  assumes "digit_val c = Some v"
  shows "c \<noteq> CHR ''_''" and "c \<noteq> CHR ''-''" and "c \<noteq> CHR ''+''" and "\<not> int_isspace c"
  using assms by (auto simp: digit_val_def int_isspace_def Let_def split: if_splits)


lemma digits_value_digits:
  "list_all (\<lambda>c. digit_val c \<noteq> None) cs \<Longrightarrow> digits_value acc cs = Some (foldl digit_step acc cs)"
proof (induction acc cs rule: digits_value.induct)
  case (1 acc)
  then show ?case by simp
next
  case (2 acc c)
  then show ?case by (auto simp: digit_step_def)
next
  case (3 acc c d cs)
  from "3.prems" obtain v where v: "digit_val c = Some v" by auto
  then have "c \<noteq> CHR ''_''" by (rule digit_val_facts)
  with 3 v show ?case by (simp add: digit_step_def)
qed

lemma str_nat_digits: "list_all (\<lambda>c. digit_val c \<noteq> None) (str_nat n)"
proof (induction n rule: str_nat.induct)
  case (1 n)
  show ?case
  proof (cases "n < 10")
    case True
    then show ?thesis by (simp add: str_nat.simps [of n] digit_val_digit_char)
  next
    case False
    with 1 show ?thesis by (simp add: str_nat.simps [of n] digit_val_digit_char)
  qed
qed

lemma str_nat_not_Nil: "str_nat n \<noteq> []"
  by (simp add: str_nat.simps [of n])

lemma foldl_str_nat: "foldl digit_step 0 (str_nat n) = n"
proof (induction n rule: str_nat.induct)
  case (1 n)
  show ?case
  proof (cases "n < 10")
    case True
    then show ?thesis by (simp add: str_nat.simps [of n] digit_step_def digit_val_digit_char)
  next
    case False
    with 1 show ?thesis by (simp add: str_nat.simps [of n] digit_step_def digit_val_digit_char)
  qed
qed

lemma parse_digits_str_nat: "parse_digits (str_nat n) = Some n"
proof (cases "str_nat n")
  case Nil
  then show ?thesis using str_nat_not_Nil by simp
next
  case (Cons c cs)
  with str_nat_digits [of n] obtain v where v: "digit_val c = Some v"
    and cs: "list_all (\<lambda>c. digit_val c \<noteq> None) cs" by auto
  have "foldl digit_step 0 (c # cs) = n" using foldl_str_nat [of n] Cons by simp
  then have "foldl digit_step v cs = n" using v by (simp add: digit_step_def)
  then show ?thesis using Cons v cs by (simp add: parse_digits_def digits_value_digits)
qed

lemma dropWhile_hd_id: "xs \<noteq> [] \<Longrightarrow> \<not> P (hd xs) \<Longrightarrow> dropWhile P xs = xs"
  by (cases xs) auto

lemma int_strip_no_space:
  assumes "s \<noteq> []" and "\<not> int_isspace (hd s)" and "\<not> int_isspace (last s)"
  shows "int_strip s = s"
proof -
  have 1: "dropWhile int_isspace s = s" using assms(1,2) by (rule dropWhile_hd_id)
  have "dropWhile int_isspace (rev s) = rev s"
    using assms(1,3) by (intro dropWhile_hd_id) (simp_all add: hd_rev)
  with 1 show ?thesis by (simp add: int_strip_def)
qed

lemma int_strip_str_nat: "int_strip (str_nat n) = str_nat n"
proof (rule int_strip_no_space)
  show ne: "str_nat n \<noteq> []" by (rule str_nat_not_Nil)
  have all: "\<forall>c \<in> set (str_nat n). digit_val c \<noteq> None"
    using str_nat_digits [of n] by (simp add: list_all_iff)
  have "hd (str_nat n) \<in> set (str_nat n)" using ne by simp
  with all show "\<not> int_isspace (hd (str_nat n))" using digit_val_facts(4) by blast
  have "last (str_nat n) \<in> set (str_nat n)" using ne by simp
  with all show "\<not> int_isspace (last (str_nat n))" using digit_val_facts(4) by blast
qed

lemma py_int_str_nat: "py_int (str_nat n) = Some (int n)"
proof (cases "str_nat n")
  case Nil
  then show ?thesis using str_nat_not_Nil by simp
next
  case (Cons c cs)
  with str_nat_digits [of n] obtain v where v: "digit_val c = Some v" by auto
  have "c \<noteq> CHR ''-''" "c \<noteq> CHR ''+''" using v by (rule digit_val_facts)+
  moreover have "int_strip (c # cs) = c # cs" using int_strip_str_nat [of n] Cons by simp
  moreover have "parse_digits (c # cs) = Some n" using parse_digits_str_nat [of n] Cons by simp
  ultimately show ?thesis
    using Cons by (simp add: py_int_def)
qed

lemma py_int_py_str: "0 \<le> i \<Longrightarrow> py_int (py_str i) = Some i"
  by (simp add: py_str_def py_int_str_nat)

lemma dash_notin_str_nat: "CHR ''-'' \<notin> set (str_nat n)"
proof
  assume "CHR ''-'' \<in> set (str_nat n)"
  then have "digit_val CHR ''-'' \<noteq> None"
    using str_nat_digits [of n] by (simp add: list_all_iff)
  then show False by (simp add: digit_val_def)
qed

lemma dash_notin_py_str: "0 \<le> i \<Longrightarrow> CHR ''-'' \<notin> set (py_str i)"
  by (simp add: py_str_def dash_notin_str_nat)

lemma py_str_inject: "0 \<le> i \<Longrightarrow> 0 \<le> j \<Longrightarrow> py_str i = py_str j \<Longrightarrow> i = j"
  using py_int_py_str by (metis option.inject)

lemma digit_char_facts:
  assumes "d < 10"
  shows "digit_char d \<in> set ''0123456789''" and "(of_char (digit_char d) :: nat) = 48 + d"
    and "0 < d \<Longrightarrow> digit_char d \<noteq> CHR ''0''"
proof -
  from assms have "d \<in> {0, 1, 2, 3, 4, 5, 6, 7, 8, 9}" by auto
  then show "digit_char d \<in> set ''0123456789''" and "(of_char (digit_char d) :: nat) = 48 + d"
    and "0 < d \<Longrightarrow> digit_char d \<noteq> CHR ''0''"
    by (auto simp: digit_char_def)
qed

lemma str_nat_chars: "list_all (\<lambda>c. c \<in> set ''0123456789'') (str_nat n)"
proof (induction n rule: str_nat.induct)
  case (1 n)
  show ?case
  proof (cases "n < 10")
    case True
    then show ?thesis using digit_char_facts(1) [of n] by (simp add: str_nat.simps [of n])
  next
    case False
    with 1 show ?thesis
      using digit_char_facts(1) [of "n mod 10"] by (simp add: str_nat.simps [of n])
  qed
qed

lemma str_nat_value: "foldl (\<lambda>a c. a * 10 + (of_char c - 48)) 0 (str_nat n) = n"
proof (induction n rule: str_nat.induct)
  case (1 n)
  show ?case
  proof (cases "n < 10")
    case True
    then show ?thesis using digit_char_facts(2) [of n] by (simp add: str_nat.simps [of n])
  next
    case False
    with 1 show ?thesis
      using digit_char_facts(2) [of "n mod 10"] by (simp add: str_nat.simps [of n])
  qed
qed

lemma str_nat_no_leading_zero: "0 < n \<Longrightarrow> hd (str_nat n) \<noteq> CHR ''0''"
proof (induction n rule: str_nat.induct)
  case (1 n)
  show ?case
  proof (cases "n < 10")
    case True
    then show ?thesis
      using digit_char_facts(3) [of n] "1.prems" by (simp add: str_nat.simps [of n])
  next
    case False
    then have "0 < n div 10" by simp
    with 1 False have "hd (str_nat (n div 10)) \<noteq> CHR ''0''" by simp
    with False show ?thesis by (simp add: str_nat.simps [of n] str_nat_not_Nil)
  qed
qed

lemma str_nat_decimal: "0 < n \<Longrightarrow> decimal_numeral (str_nat n) n"
  unfolding decimal_numeral_def
  using str_nat_not_Nil [of n] str_nat_chars [of n] str_nat_value [of n]
    str_nat_no_leading_zero [of n]
  by blast

lemma py_str_decimal: "decimal_numeral (py_str (int k + 1)) (k + 1)"
proof -
  have "py_str (int k + 1) = str_nat (k + 1)"
    by (simp add: py_str_def nat_add_distrib)
  then show ?thesis using str_nat_decimal [of "k + 1"] by simp
qed

subsection \<open>The initial checklist\<close>

lemma map_enumerate_nth:
  "map (\<lambda>(i, x). f i x) (enumerate 0 xs) = map (\<lambda>k. f k (xs ! k)) [0..<length xs]"
  by (rule nth_equalityI) (simp_all add: nth_enumerate_eq)

lemma build_sub_items_ids:
  "map sub_item_id (build_sub_items_from_bullets pid bs)
     = map (\<lambda>j. pid @ ''-'' @ py_str (int j + 1)) [0..<length bs]"
  unfolding build_sub_items_from_bullets_def
  by (simp add: map_enumerate_nth)

lemma build_sub_items_status:
  "map sub_status (build_sub_items_from_bullets pid bs) = replicate (length bs) PENDING"
  unfolding build_sub_items_from_bullets_def
  by (simp add: map_enumerate_nth map_replicate_const comp_def)

lemma map_upt_nth: "map (\<lambda>k. g (xs ! k)) [0..<length xs] = map g xs"
  by (rule nth_equalityI) simp_all

lemma build_sub_items_summary:
  "map sub_summary (build_sub_items_from_bullets pid bs) = map csb_summary bs"
  unfolding build_sub_items_from_bullets_def
  by (simp add: map_enumerate_nth comp_def map_upt_nth)

lemma initial_checklist_nth:
  assumes "k < length (gic_items out)"
  shows "item_id (checklist_items (working (handle_generate_initial_checklist e state out)) ! k)
           = ''item-'' @ py_str (int k + 1)"
    and "map sub_item_id
           (sub_items (checklist_items (working (handle_generate_initial_checklist e state out)) ! k))
           = map (\<lambda>j. ''item-'' @ py_str (int k + 1) @ ''-'' @ py_str (int j + 1))
               [0..<length (cb_sub_items (gic_items out ! k))]"
  using assms
  by (simp_all add: handle_generate_initial_checklist_def log_append_def Let_def
        map_enumerate_nth build_sub_items_ids)

text \<open>
  Claim C7. With \<open>n\<close> proposed items the handler replaces the checklist by \<open>n\<close> items
  that carry the proposals' summaries in order, have the ids \<open>item-1\<close> to \<open>item-n\<close> and
  status \<open>PENDING\<close>; the sub-items of the \<open>k\<close>-th item carry the ids \<open>item-k-1\<close> to
  \<open>item-k-m\<close> in order and are \<open>PENDING\<close> too. \<open>questions_asked\<close> becomes 0 and the
  phase \<open>ASKING_REFINEMENT_QUESTIONS\<close>. List positions count from 0, so position \<open>k\<close>
  carries the number \<open>k + 1\<close>; the last two parts say of every id that the text behind
  \<open>item-\<close> is the decimal numeral of that number: digits only, no leading zero, and of
  that value.
\<close>

theorem initial_checklist_produced:
  "length (checklist_items (working (handle_generate_initial_checklist e state output)))
     = length (gic_items output)
   \<and> map item_id (checklist_items (working (handle_generate_initial_checklist e state output)))
     = map (\<lambda>k. ''item-'' @ py_str (int k + 1)) [0..<length (gic_items output)]
   \<and> map summary (checklist_items (working (handle_generate_initial_checklist e state output)))
     = map cb_summary (gic_items output)
   \<and> map status (checklist_items (working (handle_generate_initial_checklist e state output)))
     = replicate (length (gic_items output)) PENDING
   \<and> map (\<lambda>item. map sub_item_id (sub_items item))
        (checklist_items (working (handle_generate_initial_checklist e state output)))
     = map (\<lambda>k. map (\<lambda>j. ''item-'' @ py_str (int k + 1) @ ''-'' @ py_str (int j + 1))
                  [0..<length (cb_sub_items (gic_items output ! k))])
         [0..<length (gic_items output)]
   \<and> map (\<lambda>item. map sub_summary (sub_items item))
        (checklist_items (working (handle_generate_initial_checklist e state output)))
     = map (\<lambda>bullet. map csb_summary (cb_sub_items bullet)) (gic_items output)
   \<and> map (\<lambda>item. map sub_status (sub_items item))
        (checklist_items (working (handle_generate_initial_checklist e state output)))
     = map (\<lambda>bullet. replicate (length (cb_sub_items bullet)) PENDING) (gic_items output)
   \<and> questions_asked (workflow (handle_generate_initial_checklist e state output)) = 0
   \<and> phase (workflow (handle_generate_initial_checklist e state output))
     = ASKING_REFINEMENT_QUESTIONS
   \<and> (\<forall>k < length (gic_items output).
         \<exists>d. item_id (checklist_items
                  (working (handle_generate_initial_checklist e state output)) ! k)
                = ''item-'' @ d
              \<and> decimal_numeral d (k + 1))
   \<and> (\<forall>k < length (gic_items output). \<forall>j < length (cb_sub_items (gic_items output ! k)).
         \<exists>d d'. sub_item_id (sub_items (checklist_items
                    (working (handle_generate_initial_checklist e state output)) ! k) ! j)
                  = ''item-'' @ d @ ''-'' @ d'
                \<and> decimal_numeral d (k + 1) \<and> decimal_numeral d' (j + 1))"
proof -
  let ?items = "checklist_items (working (handle_generate_initial_checklist e state output))"
  have shape: "length ?items = length (gic_items output)
   \<and> map item_id ?items
     = map (\<lambda>k. ''item-'' @ py_str (int k + 1)) [0..<length (gic_items output)]
   \<and> map summary ?items = map cb_summary (gic_items output)
   \<and> map status ?items = replicate (length (gic_items output)) PENDING
   \<and> map (\<lambda>item. map sub_item_id (sub_items item)) ?items
     = map (\<lambda>k. map (\<lambda>j. ''item-'' @ py_str (int k + 1) @ ''-'' @ py_str (int j + 1))
                  [0..<length (cb_sub_items (gic_items output ! k))])
         [0..<length (gic_items output)]
   \<and> map (\<lambda>item. map sub_summary (sub_items item)) ?items
     = map (\<lambda>bullet. map csb_summary (cb_sub_items bullet)) (gic_items output)
   \<and> map (\<lambda>item. map sub_status (sub_items item)) ?items
     = map (\<lambda>bullet. replicate (length (cb_sub_items bullet)) PENDING) (gic_items output)
   \<and> questions_asked (workflow (handle_generate_initial_checklist e state output)) = 0
   \<and> phase (workflow (handle_generate_initial_checklist e state output))
     = ASKING_REFINEMENT_QUESTIONS"
    by (simp add: handle_generate_initial_checklist_def log_append_def Let_def map_enumerate_nth comp_def
      build_sub_items_ids build_sub_items_status build_sub_items_summary
      map_replicate_const map_upt_nth
      map_upt_nth [of "\<lambda>b. map csb_summary (cb_sub_items b)"]
      map_upt_nth [of "\<lambda>b. replicate (length (cb_sub_items b)) PENDING"])
  have ids: "\<exists>d. item_id (?items ! k) = ''item-'' @ d \<and> decimal_numeral d (k + 1)"
    if "k < length (gic_items output)" for k
    using initial_checklist_nth(1) [OF that, of e state] py_str_decimal [of k] by blast
  have subs: "\<exists>d d'. sub_item_id (sub_items (?items ! k) ! j) = ''item-'' @ d @ ''-'' @ d'
                \<and> decimal_numeral d (k + 1) \<and> decimal_numeral d' (j + 1)"
    if "k < length (gic_items output)" and "j < length (cb_sub_items (gic_items output ! k))" for k j
  proof -
    have len: "j < length (sub_items (?items ! k))"
      using arg_cong [OF initial_checklist_nth(2) [OF that(1), of e state], of length] that(2)
      by simp
    have "sub_item_id (sub_items (?items ! k) ! j)
            = map sub_item_id (sub_items (?items ! k)) ! j"
      using len by simp
    also have "\<dots> = ''item-'' @ py_str (int k + 1) @ ''-'' @ py_str (int j + 1)"
      using that(2) by (simp add: initial_checklist_nth(2) [OF that(1)])
    finally show ?thesis using py_str_decimal [of k] py_str_decimal [of j] by blast
  qed
  from shape ids subs show ?thesis by blast
qed

lemma py_str_small:
  "py_str 1 = ''1''" "py_str 2 = ''2''" "py_str 3 = ''3''" "py_str 4 = ''4''"
  "py_str 5 = ''5''" "py_str 6 = ''6''" "py_str 7 = ''7''" "py_str 8 = ''8''"
  "py_str 9 = ''9''" "py_str 10 = ''10''" "py_str 11 = ''11''"
  by (simp_all add: py_str_def str_nat.simps digit_char_def)

theorem initial_checklist_produced_witness:
  "map item_id (checklist_items (working (handle_generate_initial_checklist example_env
       described_state (checklist_output eleven_bullets))))
     = [''item-1'', ''item-2'', ''item-3'', ''item-4'', ''item-5'', ''item-6'', ''item-7'',
        ''item-8'', ''item-9'', ''item-10'', ''item-11'']
   \<and> map (\<lambda>item. map sub_item_id (sub_items item))
       (checklist_items (working (handle_generate_initial_checklist example_env
          described_state (checklist_output eleven_bullets))))
     = [[], [], [], [], [], [], [], [], [], [], [''item-11-1'', ''item-11-2'']]
   \<and> map item_id (checklist_items (working (handle_generate_initial_checklist example_env
       described_state (checklist_output [bullet ''Write spec'' []]))))
     = [''item-1'']
   \<and> map status (checklist_items (working (handle_generate_initial_checklist example_env
       described_state (checklist_output [bullet ''Write spec'' []]))))
     = [PENDING]
   \<and> phase (workflow (handle_generate_initial_checklist example_env
       described_state (checklist_output [bullet ''Write spec'' []])))
     = ASKING_REFINEMENT_QUESTIONS
   \<and> questions_asked (workflow (handle_generate_initial_checklist example_env
       described_state (checklist_output [bullet ''Write spec'' []]))) = 0
   \<and> phase (workflow described_state) = GENERATING_CHECKLIST"
proof -
  note big = initial_checklist_produced
               [of example_env described_state "checklist_output eleven_bullets"]
  note one = initial_checklist_produced
               [of example_env described_state "checklist_output [bullet ''Write spec'' []]"]
  have len: "length (gic_items (checklist_output eleven_bullets)) = 11"
    by (simp add: checklist_output_def eleven_bullets_def)
  have upt: "[0..<11] = [0, 1, 2, 3, 4, 5, 6, 7, 8, 9, 10::nat]"
    by (simp add: upt_rec)
  have a: "map item_id (checklist_items (working (handle_generate_initial_checklist example_env
       described_state (checklist_output eleven_bullets))))
     = [''item-1'', ''item-2'', ''item-3'', ''item-4'', ''item-5'', ''item-6'', ''item-7'',
        ''item-8'', ''item-9'', ''item-10'', ''item-11'']"
    using big [THEN conjunct2, THEN conjunct1]
    unfolding len upt by (simp add: py_str_small)
  have b: "map (\<lambda>item. map sub_item_id (sub_items item))
       (checklist_items (working (handle_generate_initial_checklist example_env
          described_state (checklist_output eleven_bullets))))
     = [[], [], [], [], [], [], [], [], [], [], [''item-11-1'', ''item-11-2'']]"
    using big [THEN conjunct2, THEN conjunct2, THEN conjunct2, THEN conjunct2, THEN conjunct1]
    by (simp add: checklist_output_def eleven_bullets_def bullet_def sub_bullet_def
          py_str_small upt_rec)
  have c: "map item_id (checklist_items (working (handle_generate_initial_checklist example_env
       described_state (checklist_output [bullet ''Write spec'' []]))))
     = [''item-1'']
   \<and> map status (checklist_items (working (handle_generate_initial_checklist example_env
       described_state (checklist_output [bullet ''Write spec'' []]))))
     = [PENDING]
   \<and> phase (workflow (handle_generate_initial_checklist example_env
       described_state (checklist_output [bullet ''Write spec'' []])))
     = ASKING_REFINEMENT_QUESTIONS
   \<and> questions_asked (workflow (handle_generate_initial_checklist example_env
       described_state (checklist_output [bullet ''Write spec'' []]))) = 0"
    using one [THEN conjunct2, THEN conjunct1]
      one [THEN conjunct2, THEN conjunct2, THEN conjunct2, THEN conjunct1]
      one [THEN conjunct2, THEN conjunct2, THEN conjunct2, THEN conjunct2, THEN conjunct2,
           THEN conjunct2, THEN conjunct2, THEN conjunct1]
      one [THEN conjunct2, THEN conjunct2, THEN conjunct2, THEN conjunct2, THEN conjunct2,
           THEN conjunct2, THEN conjunct2, THEN conjunct2, THEN conjunct1]
    by (simp add: checklist_output_def py_str_small)
  have d: "phase (workflow described_state) = GENERATING_CHECKLIST"
    by (simp add: described_state_def ingest_user_description_def py_strip_def py_isspace_def
          Let_def log_append_def set_phase_def set_last_transition_at_def)
  from a b c d show ?thesis by blast
qed


subsection \<open>Generated ids are not in use\<close>

lemma startswith_append: "startswith (p @ t) p"
  by (simp add: startswith_def)

lemma py_split_1_item: "py_split_1 CHR ''-'' (''item-'' @ t) ! 1 = t"
  by (simp add: py_split_1_def)

lemma max_item_index_ge: "m \<le> max_item_index m ks"
proof (induction ks arbitrary: m)
  case Nil
  then show ?case by simp
next
  case (Cons k ks)
  have "m \<le> max_item_index (max m idx) ks" for idx
    using Cons [of "max m idx"] by simp
  with Cons show ?case by (simp split: option.splits)
qed

lemma max_item_index_bound:
  assumes "k \<in> set ks" and "startswith k ''item-''"
    and "py_int (py_split_1 CHR ''-'' k ! 1) = Some idx"
  shows "idx \<le> max_item_index m ks"
  using assms
proof (induction ks arbitrary: m)
  case Nil
  then show ?case by simp
next
  case (Cons a ks)
  show ?case
  proof (cases "k = a")
    case True
    have "idx \<le> max_item_index (max m idx) ks"
      using max_item_index_ge [of "max m idx" ks] by simp
    with True Cons.prems show ?thesis by simp
  next
    case False
    with Cons.prems have "k \<in> set ks" by simp
    with Cons have "idx \<le> max_item_index m' ks" for m' by blast
    then show ?thesis by (simp split: option.splits)
  qed
qed

lemma max_item_index_nonneg: "0 \<le> max_item_index 0 ks"
  by (rule max_item_index_ge)

lemma next_item_id_fresh: "next_item_id ks \<notin> set ks"
proof
  let ?m = "max_item_index 0 ks"
  assume "next_item_id ks \<in> set ks"
  then have mem: "''item-'' @ py_str (?m + 1) \<in> set ks" by (simp add: next_item_id_def)
  have pos: "0 \<le> ?m + 1" using max_item_index_nonneg [of ks] by simp
  have "py_int (py_split_1 CHR ''-'' (''item-'' @ py_str (?m + 1)) ! 1) = Some (?m + 1)"
    using py_int_py_str [OF pos] by (simp only: py_split_1_item)
  from max_item_index_bound [OF mem startswith_append this, of 0]
  show False by simp
qed

lemma py_split_not_Nil: "py_split sep s \<noteq> []"
  by (cases s) auto

lemma py_split_no_sep: "sep \<notin> set t \<Longrightarrow> py_split sep t = [t]"
  by (induction t) auto

lemma tl_py_split_sep: "tl (py_split sep (p @ sep # t)) \<noteq> []"
  by (induction p) (auto simp: py_split_not_Nil)

lemma last_py_split_sep: "last (py_split sep (p @ sep # t)) = last (py_split sep t)"
proof (induction p)
  case Nil
  then show ?case by (simp add: py_split_not_Nil)
next
  case (Cons c p)
  show ?case
  proof (cases "c = sep")
    case True
    with Cons show ?thesis by (simp add: py_split_not_Nil)
  next
    case False
    let ?r = "py_split sep (p @ sep # t)"
    have "tl ?r \<noteq> []" by (rule tl_py_split_sep)
    moreover have "?r = hd ?r # tl ?r" using py_split_not_Nil [of sep "p @ sep # t"] by simp
    ultimately have "last (tl ?r) = last ?r" by (metis last_ConsR)
    with False Cons \<open>tl ?r \<noteq> []\<close> show ?thesis by simp
  qed
qed

lemma last_py_split_suffix:
  "sep \<notin> set t \<Longrightarrow> last (py_split sep (p @ sep # t)) = t"
  by (simp add: last_py_split_sep py_split_no_sep)

lemma max_sub_index_ge: "m \<le> max_sub_index pfx m ks"
proof (induction ks arbitrary: m)
  case Nil
  then show ?case by simp
next
  case (Cons k ks)
  have "m \<le> max_sub_index pfx (max m idx) ks" for idx
    using Cons [of "max m idx"] by simp
  with Cons show ?case by (simp split: option.splits)
qed

lemma max_sub_index_bound:
  assumes "k \<in> set ks" and "startswith k pfx"
    and "py_int (last (py_split CHR ''-'' k)) = Some idx"
  shows "idx \<le> max_sub_index pfx m ks"
  using assms
proof (induction ks arbitrary: m)
  case Nil
  then show ?case by simp
next
  case (Cons a ks)
  show ?case
  proof (cases "k = a")
    case True
    have "idx \<le> max_sub_index pfx (max m idx) ks"
      using max_sub_index_ge [of "max m idx" pfx ks] by simp
    with True Cons.prems show ?thesis by simp
  next
    case False
    with Cons.prems have "k \<in> set ks" by simp
    with Cons have "idx \<le> max_sub_index pfx m' ks" for m' by blast
    then show ?thesis by (simp split: option.splits)
  qed
qed

lemma next_sub_item_id_fresh: "next_sub_item_id parent_id ks \<notin> set ks"
proof
  let ?pfx = "parent_id @ ''-''"
  let ?m = "max_sub_index ?pfx 0 ks"
  assume "next_sub_item_id parent_id ks \<in> set ks"
  then have mem: "?pfx @ py_str (?m + 1) \<in> set ks" by (simp add: next_sub_item_id_def)
  have pos: "0 \<le> ?m + 1" using max_sub_index_ge [of 0 ?pfx ks] by simp
  have "last (py_split CHR ''-'' (?pfx @ py_str (?m + 1))) = py_str (?m + 1)"
    using last_py_split_suffix [OF dash_notin_py_str [OF pos], of parent_id] by simp
  then have "py_int (last (py_split CHR ''-'' (?pfx @ py_str (?m + 1)))) = Some (?m + 1)"
    using py_int_py_str [OF pos] by simp
  from max_sub_index_bound [OF mem startswith_append this, of 0]
  show False by simp
qed

subsection \<open>One refinement instruction\<close>

lemma handle_incorporate_items:
  "checklist_items (working (handle_incorporate_refinements e state output))
     = foldl apply_update (checklist_items (working state)) (ir_updates output)"
  by (simp add: handle_incorporate_refinements_def Let_def)

lemma filter_distinct_split:
  assumes "distinct (map g xs)" and "a \<in> set (map g xs)"
  shows "\<exists>ys x zs. xs = ys @ x # zs \<and> g x = a \<and> filter (\<lambda>y. g y \<noteq> a) xs = ys @ zs"
proof -
  from assms(2) obtain x where "x \<in> set xs" and gx: "g x = a" by auto
  then obtain ys zs where xs: "xs = ys @ x # zs" by (auto dest: split_list)
  with assms(1) gx have "a \<notin> g ` set ys" and "a \<notin> g ` set zs"
    by auto
  then have "\<forall>y \<in> set ys. g y \<noteq> a" and "\<forall>z \<in> set zs. g z \<noteq> a"
    by blast+
  then have "filter (\<lambda>y. g y \<noteq> a) xs = ys @ zs" using xs gx by simp
  with xs gx show ?thesis by blast
qed

lemma max_item_index_attained:
  "max_item_index m ks = m
   \<or> (\<exists>k \<in> set ks. startswith k ''item-''
         \<and> py_int (py_split_1 CHR ''-'' k ! 1) = Some (max_item_index m ks))"
proof (induction ks arbitrary: m)
  case Nil
  then show ?case by simp
next
  case (Cons a ks)
  show ?case
  proof (cases "startswith a ''item-''")
    case False
    with Cons [of m] show ?thesis by auto
  next
    case True
    show ?thesis
    proof (cases "py_int (py_split_1 CHR ''-'' a ! 1)")
      case None
      with True Cons [of m] show ?thesis by auto
    next
      case (Some idx)
      with True Cons [of "max m idx"] show ?thesis
        by (auto simp: max_def split: if_splits)
    qed
  qed
qed

lemma apply_update_remove:
  assumes "ru_action u = Remove" and "ru_item_id u = Some iid" and "iid \<noteq> []"
    and "iid \<in> set (map item_id cur)"
  shows "apply_update cur u = filter (\<lambda>item. item_id item \<noteq> iid) cur"
  using assms by (simp add: apply_update_def)

lemma apply_update_unknown_id:
  assumes "ru_action u = Update \<or> ru_action u = Remove"
    and "\<not> truthy (ru_item_id u)
         \<or> (\<forall>iid. ru_item_id u = Some iid \<longrightarrow> iid \<notin> set (map item_id cur))"
  shows "apply_update cur u = cur"
  using assms by (auto simp: apply_update_def truthy_def split: option.splits)

lemma apply_update_add_skipped:
  assumes "ru_action u = Add" and "\<not> truthy (ru_summary u)"
  shows "apply_update cur u = cur"
  using assms by (simp add: apply_update_def)

lemma apply_update_add_generated:
  assumes "ru_action u = Add" and "truthy (ru_summary u)" and "\<not> truthy (ru_item_id u)"
  shows "\<exists>new. apply_update cur u = cur @ [new]
           \<and> item_id new = next_item_id (map item_id cur)"
proof -
  have "or_str (ru_item_id u) (next_item_id (map item_id cur)) = next_item_id (map item_id cur)"
    using assms(3) by (auto simp: truthy_def or_str_def split: option.splits)
  then show ?thesis
    using assms by (simp add: apply_update_def Let_def apply_sub_item_updates_def)
qed

text \<open>
  Claim C8, as the code has it. Let \<open>cur\<close> be the checklist when an instruction \<open>u\<close> of
  the output has its turn, that is after the instructions before it. The handler's
  checklist is what the instructions after \<open>u\<close> make of \<open>apply_update cur u\<close>, and
  \<^item> a remove instruction whose id is not empty and is the id of an item of \<open>cur\<close> yields
    \<open>cur\<close> without the items of that id, the others in their order; with distinct ids
    that is \<open>cur\<close> with exactly one item taken out;
  \<^item> an update or remove instruction whose id is absent, empty or the id of no item of
    \<open>cur\<close> yields \<open>cur\<close>;
  \<^item> an add instruction without a summary yields \<open>cur\<close>;
  \<^item> an add instruction with a summary and without an id appends one item whose id is
    \<open>item-\<close> followed by the decimal numeral of \<open>n\<close>, where \<open>n \<ge> 1\<close> exceeds every number
    carried by an id \<open>item-\<dots>\<close> of \<open>cur\<close> and is 1 or the successor of such a number; that
    id is the id of no item of \<open>cur\<close>. The number an id carries is what \<^verbatim>\<open>int\<close> makes
    of the text behind its first hyphen; an id on which \<^verbatim>\<open>int\<close> fails carries none.
  The code takes an empty string for an absent id and for an absent summary. Numerals
  stay within the interpreter's limit on integer conversions, as said with \<open>py_int\<close>.
\<close>

theorem refinement_instruction_effect:
  fixes state :: ResearchState and pre :: "RefinementUpdateModel list"
    and cur :: "ChecklistItem list" and n :: int
  assumes "ir_updates output = pre @ u # post"
  defines "cur \<equiv> foldl apply_update (checklist_items (working state)) pre"
  defines "n \<equiv> max_item_index 0 (map item_id cur) + 1"
  shows "checklist_items (working (handle_incorporate_refinements e state output))
           = foldl apply_update (apply_update cur u) post
   \<and> (\<forall>iid. ru_action u = Remove \<and> ru_item_id u = Some iid \<and> iid \<noteq> []
         \<and> iid \<in> set (map item_id cur) \<longrightarrow>
           apply_update cur u = filter (\<lambda>item. item_id item \<noteq> iid) cur
           \<and> (distinct (map item_id cur) \<longrightarrow>
                (\<exists>ys x zs. cur = ys @ x # zs \<and> item_id x = iid \<and> apply_update cur u = ys @ zs)))
   \<and> ((ru_action u = Update \<or> ru_action u = Remove)
         \<and> (\<not> truthy (ru_item_id u)
              \<or> (\<forall>iid. ru_item_id u = Some iid \<longrightarrow> iid \<notin> set (map item_id cur))) \<longrightarrow>
           apply_update cur u = cur)
   \<and> (ru_action u = Add \<and> \<not> truthy (ru_summary u) \<longrightarrow> apply_update cur u = cur)
   \<and> (ru_action u = Add \<and> truthy (ru_summary u) \<and> \<not> truthy (ru_item_id u) \<longrightarrow>
           (\<exists>new. apply_update cur u = cur @ [new]
              \<and> item_id new = ''item-'' @ py_str n
              \<and> item_id new \<notin> set (map item_id cur))
           \<and> 1 \<le> n
           \<and> decimal_numeral (py_str n) (nat n)
           \<and> (\<forall>k idx. k \<in> set (map item_id cur) \<and> startswith k ''item-''
                  \<and> py_int (py_split_1 CHR ''-'' k ! 1) = Some idx \<longrightarrow> idx < n)
           \<and> (n = 1 \<or> (\<exists>k \<in> set (map item_id cur). startswith k ''item-''
                  \<and> py_int (py_split_1 CHR ''-'' k ! 1) = Some (n - 1))))"
proof -
  have whole: "checklist_items (working (handle_incorporate_refinements e state output))
           = foldl apply_update (apply_update cur u) post"
    using assms(1) by (simp add: handle_incorporate_items cur_def)
  have remove: "apply_update cur u = filter (\<lambda>item. item_id item \<noteq> iid) cur
           \<and> (distinct (map item_id cur) \<longrightarrow>
                (\<exists>ys x zs. cur = ys @ x # zs \<and> item_id x = iid \<and> apply_update cur u = ys @ zs))"
    if "ru_action u = Remove \<and> ru_item_id u = Some iid \<and> iid \<noteq> []
         \<and> iid \<in> set (map item_id cur)" for iid
  proof -
    have rm: "apply_update cur u = filter (\<lambda>item. item_id item \<noteq> iid) cur"
      using that by (intro apply_update_remove) simp_all
    moreover have "\<exists>ys x zs. cur = ys @ x # zs \<and> item_id x = iid \<and> apply_update cur u = ys @ zs"
      if "distinct (map item_id cur)"
      using filter_distinct_split [OF that, of iid] \<open>ru_action u = Remove \<and> _\<close> rm by simp
    ultimately show ?thesis by blast
  qed
  have ignore: "apply_update cur u = cur"
    if "(ru_action u = Update \<or> ru_action u = Remove)
         \<and> (\<not> truthy (ru_item_id u)
              \<or> (\<forall>iid. ru_item_id u = Some iid \<longrightarrow> iid \<notin> set (map item_id cur)))"
    using that apply_update_unknown_id [of u cur] by blast
  have skip: "apply_update cur u = cur"
    if "ru_action u = Add \<and> \<not> truthy (ru_summary u)"
    using that by (intro apply_update_add_skipped) simp_all
  have nid: "next_item_id (map item_id cur) = ''item-'' @ py_str n"
    by (simp add: next_item_id_def n_def)
  have add: "\<exists>new. apply_update cur u = cur @ [new]
              \<and> item_id new = ''item-'' @ py_str n
              \<and> item_id new \<notin> set (map item_id cur)"
    if "ru_action u = Add \<and> truthy (ru_summary u) \<and> \<not> truthy (ru_item_id u)"
  proof -
    from that obtain new where "apply_update cur u = cur @ [new]"
      and "item_id new = next_item_id (map item_id cur)"
      using apply_update_add_generated [of u cur] by blast
    then show ?thesis
      using next_item_id_fresh [of "map item_id cur"] nid by auto
  qed
  have pos: "1 \<le> n"
    using max_item_index_nonneg [of "map item_id cur"] by (simp add: n_def)
  have dec: "decimal_numeral (py_str n) (nat n)"
    using pos str_nat_decimal [of "nat n"] by (simp add: py_str_def)
  have above: "idx < n"
    if "k \<in> set (map item_id cur) \<and> startswith k ''item-''
          \<and> py_int (py_split_1 CHR ''-'' k ! 1) = Some idx" for k idx
  proof -
    have "idx \<le> max_item_index 0 (map item_id cur)"
      using that max_item_index_bound by blast
    then show ?thesis by (simp add: n_def)
  qed
  have attained: "n = 1 \<or> (\<exists>k \<in> set (map item_id cur). startswith k ''item-''
                  \<and> py_int (py_split_1 CHR ''-'' k ! 1) = Some (n - 1))"
    using max_item_index_attained [of 0 "map item_id cur"] by (auto simp: n_def)
  from whole remove ignore skip add pos dec above attained show ?thesis by blast
qed

lemma max_item_index_example:
  "max_item_index 0 [''item-1'', ''item-2'', ''item-3''] = 3"
  by (simp add: startswith_def py_split_1_def py_int_def int_strip_def
        int_isspace_def parse_digits_def digit_val_def)

lemma max_item_index_separator:
  "max_item_index 0 [''item-1'', ''item-5'' @ [CHR 0x1F]] = 1"
  by (simp add: startswith_def py_split_1_def py_int_def int_strip_def
        int_isspace_def parse_digits_def digit_val_def)

lemma py_str_4: "py_str 4 = ''4''"
  by (simp add: py_str_def str_nat.simps digit_char_def)

theorem refinement_instruction_effect_witness:
  "map item_id (checklist_items (working (handle_incorporate_refinements example_env
      three_items_state (refinement_output [instruction Remove (Some ''item-2'') None]))))
     = [''item-1'', ''item-3'']
   \<and> map item_id (checklist_items (working (handle_incorporate_refinements example_env
      three_items_state (refinement_output [instruction Update (Some ''item-9'') (Some ''x'')]))))
     = [''item-1'', ''item-2'', ''item-3'']
   \<and> map item_id (checklist_items (working (handle_incorporate_refinements example_env
      three_items_state (refinement_output [instruction Add None (Some ''Ship it'')]))))
     = [''item-1'', ''item-2'', ''item-3'', ''item-4'']
   \<and> map item_id (checklist_items (working (handle_incorporate_refinements example_env
      separator_state (refinement_output [instruction Add None (Some ''Ship it'')]))))
     = [''item-1'', ''item-5'' @ [CHR 0x1F], ''item-2'']"
proof -
  have "map item_id (checklist_items (working (handle_incorporate_refinements example_env
      three_items_state (refinement_output [instruction Remove (Some ''item-2'') None]))))
     = [''item-1'', ''item-3'']"
    using refinement_instruction_effect
     [of "refinement_output [instruction Remove (Some ''item-2'') None]" "[]"
         "instruction Remove (Some ''item-2'') None" "[]" example_env three_items_state]
    by (simp add: refinement_output_def instruction_def three_items_state_def example_item_def)
  moreover
  have "map item_id (checklist_items (working (handle_incorporate_refinements example_env
      three_items_state (refinement_output [instruction Update (Some ''item-9'') (Some ''x'')]))))
     = [''item-1'', ''item-2'', ''item-3'']"
    using refinement_instruction_effect
     [of "refinement_output [instruction Update (Some ''item-9'') (Some ''x'')]" "[]"
         "instruction Update (Some ''item-9'') (Some ''x'')" "[]" example_env three_items_state]
    by (simp add: refinement_output_def instruction_def three_items_state_def example_item_def)
  moreover
  have "map item_id (checklist_items (working (handle_incorporate_refinements example_env
      three_items_state (refinement_output [instruction Add None (Some ''Ship it'')]))))
     = [''item-1'', ''item-2'', ''item-3'', ''item-4'']"
  proof -
    let ?u = "instruction Add None (Some ''Ship it'')"
    have hyp: "ir_updates (refinement_output [?u]) = [] @ ?u # []"
      by (simp add: refinement_output_def)
    have items: "checklist_items (working three_items_state)
                   = map example_item [''item-1'', ''item-2'', ''item-3'']"
      by (simp add: three_items_state_def)
    have ids: "map item_id (map example_item [''item-1'', ''item-2'', ''item-3''])
                   = [''item-1'', ''item-2'', ''item-3'']"
      by (simp add: example_item_def)
    have add: "ru_action ?u = Add \<and> truthy (ru_summary ?u) \<and> \<not> truthy (ru_item_id ?u)"
      by (simp add: instruction_def truthy_def)
    from refinement_instruction_effect [OF hyp, of example_env three_items_state] add
    obtain new where
      "checklist_items (working (handle_incorporate_refinements example_env three_items_state
          (refinement_output [?u])))
         = map example_item [''item-1'', ''item-2'', ''item-3''] @ [new]"
      and "item_id new = ''item-4''"
      unfolding foldl.simps items ids max_item_index_example
      by (auto simp: py_str_4)
    then show ?thesis by (simp add: example_item_def)
  qed
  moreover
  have "map item_id (checklist_items (working (handle_incorporate_refinements example_env
      separator_state (refinement_output [instruction Add None (Some ''Ship it'')]))))
     = [''item-1'', ''item-5'' @ [CHR 0x1F], ''item-2'']"
  proof -
    let ?u = "instruction Add None (Some ''Ship it'')"
    have hyp: "ir_updates (refinement_output [?u]) = [] @ ?u # []"
      by (simp add: refinement_output_def)
    have items: "checklist_items (working separator_state)
                   = [example_item ''item-1'', example_item (''item-5'' @ [CHR 0x1F])]"
      by (simp add: separator_state_def)
    have ids: "map item_id [example_item ''item-1'', example_item (''item-5'' @ [CHR 0x1F])]
                   = [''item-1'', ''item-5'' @ [CHR 0x1F]]"
      by (simp add: example_item_def)
    have add: "ru_action ?u = Add \<and> truthy (ru_summary ?u) \<and> \<not> truthy (ru_item_id ?u)"
      by (simp add: instruction_def truthy_def)
    from refinement_instruction_effect [OF hyp, of example_env separator_state] add
    obtain new where
      "checklist_items (working (handle_incorporate_refinements example_env separator_state
          (refinement_output [?u])))
         = [example_item ''item-1'', example_item (''item-5'' @ [CHR 0x1F])] @ [new]"
      and "item_id new = ''item-2''"
      unfolding foldl.simps items ids max_item_index_separator
      by (auto simp: py_str_small)
    then show ?thesis by (simp add: example_item_def)
  qed
  ultimately show ?thesis by blast
qed

text \<open>
  Two instructions on which claim C8 as stated fails: an add instruction without an id
  and without a summary is given no id, the checklist keeping its three items although
  \<open>item-4\<close> is free; and a remove instruction whose id is the empty string removes
  nothing, although an item carries that id.
\<close>

theorem refinement_instruction_guards:
  "map item_id (checklist_items (working (handle_incorporate_refinements example_env
      three_items_state (refinement_output [instruction Add None None]))))
     = [''item-1'', ''item-2'', ''item-3'']
   \<and> next_item_id [''item-1'', ''item-2'', ''item-3''] = ''item-4''
   \<and> map item_id (checklist_items (working unnamed_item_state)) = [[]]
   \<and> map item_id (checklist_items (working (handle_incorporate_refinements example_env
      unnamed_item_state (refinement_output [instruction Remove (Some []) None]))))
     = [[]]"
proof -
  have "next_item_id [''item-1'', ''item-2'', ''item-3''] = ''item-4''"
    unfolding next_item_id_def max_item_index_example by (simp add: py_str_4)
  then show ?thesis
    by (simp add: handle_incorporate_items refinement_output_def instruction_def
          three_items_state_def unnamed_item_state_def example_item_def apply_update_def
          truthy_def)
qed

subsection \<open>Progress signals\<close>

lemma map_update_last:
  "(\<And>x. g (f x) = g x) \<Longrightarrow> map g (update_last P f xs) = map g xs"
  by (induction xs) auto

lemma lookup_last_None: "(lookup_last P xs = None) = (\<not> list_ex P xs)"
  by (auto simp: lookup_last_def find_None_iff list_ex_iff)

lemma find_Some_mem: "find P ys = Some x \<Longrightarrow> x \<in> set ys \<and> P x"
  by (induction ys) (auto split: if_splits)

lemma lookup_last_Some: "lookup_last P xs = Some x \<Longrightarrow> x \<in> set xs \<and> P x"
  unfolding lookup_last_def by (drule find_Some_mem) simp

lemma item_known_iff:
  "list_ex (\<lambda>item. item_id item = iid) items = (iid \<in> set (map item_id items))"
  by (auto simp: list_ex_iff)

lemma sub_known_iff:
  "list_ex (\<lambda>sub. sub_item_id sub = sid) (all_sub_items items)
     = (sid \<in> set (map sub_item_id (all_sub_items items)))"
  by (auto simp: list_ex_iff)

lemma item_ids_of_shape: "map item_id items = map fst (id_shape items)"
  by (simp add: id_shape_def comp_def)

lemma sub_ids_of_shape: "map sub_item_id (all_sub_items items) = concat (map snd (id_shape items))"
  by (simp add: id_shape_def all_sub_items_def comp_def map_concat)

lemma touch_item_ids [simp]:
  "item_id (touch_item signal item) = item_id item"
  "sub_items (touch_item signal item) = sub_items item"
  by (simp_all add: touch_item_def Let_def split: option.splits)

lemma touch_sub_item_id [simp]: "sub_item_id (touch_sub_item signal sub) = sub_item_id sub"
  by (simp add: touch_sub_item_def Let_def split: option.splits)

lemma id_shape_touch_items:
  "id_shape (update_last P (touch_item signal) items) = id_shape items"
  unfolding id_shape_def by (rule map_update_last) simp

lemma id_shape_touch_subs:
  "id_shape (update_last_sub sid (touch_sub_item signal) items) = id_shape items"
  unfolding id_shape_def update_last_sub_def
  by (rule map_update_last) (simp add: map_update_last)

lemma id_shape_signal_item: "id_shape (fst (signal_item signal acc iid)) = id_shape (fst acc)"
  by (simp add: signal_item_def id_shape_touch_items split: option.splits)

lemma id_shape_signal_sub_item:
  "id_shape (fst (signal_sub_item signal acc sid)) = id_shape (fst acc)"
  by (simp add: signal_sub_item_def id_shape_touch_subs split: option.splits)

lemma map_fst_dict_set:
  "map fst (dict_set k v d) = (if k \<in> set (map fst d) then map fst d else map fst d @ [k])"
  by (induction d) auto

lemma signal_item_keys:
  "map fst (snd (signal_item signal acc iid))
     = (if iid \<in> set (map item_id (fst acc)) \<and> iid \<notin> set (map fst (snd acc))
        then map fst (snd acc) @ [iid] else map fst (snd acc))"
proof (cases "lookup_last (\<lambda>item. item_id item = iid) (fst acc)")
  case None
  then have "iid \<notin> set (map item_id (fst acc))"
    by (simp add: lookup_last_None item_known_iff)
  with None show ?thesis by (simp add: signal_item_def)
next
  case (Some item)
  then have "iid \<in> set (map item_id (fst acc))"
    using lookup_last_Some [OF Some] by auto
  with Some show ?thesis by (simp add: signal_item_def map_fst_dict_set)
qed

lemma signal_sub_item_keys:
  "map fst (snd (signal_sub_item signal acc sid))
     = (if sid \<in> set (map sub_item_id (all_sub_items (fst acc))) \<and> sid \<notin> set (map fst (snd acc))
        then map fst (snd acc) @ [sid] else map fst (snd acc))"
proof (cases "lookup_last (\<lambda>sub. sub_item_id sub = sid) (all_sub_items (fst acc))")
  case None
  then have "sid \<notin> set (map sub_item_id (all_sub_items (fst acc)))"
    by (simp add: lookup_last_None sub_known_iff)
  with None show ?thesis by (simp add: signal_sub_item_def)
next
  case (Some sub)
  then have "sid \<in> set (map sub_item_id (all_sub_items (fst acc)))"
    using lookup_last_Some [OF Some] by auto
  with Some show ?thesis by (simp add: signal_sub_item_def map_fst_dict_set)
qed

text \<open>The inner loops: identifiers stay, and the keys are the known ids met.\<close>

lemma item_loop:
  "id_shape (fst (foldl (signal_item signal) acc ids)) = id_shape (fst acc)
   \<and> set (map fst (snd (foldl (signal_item signal) acc ids)))
       = set (map fst (snd acc)) \<union> {iid \<in> set ids. iid \<in> set (map item_id (fst acc))}
   \<and> (distinct (map fst (snd acc))
        \<longrightarrow> distinct (map fst (snd (foldl (signal_item signal) acc ids))))"
proof (induction ids arbitrary: acc)
  case Nil
  then show ?case by simp
next
  case (Cons iid ids)
  let ?acc = "signal_item signal acc iid"
  have shape: "id_shape (fst ?acc) = id_shape (fst acc)" by (rule id_shape_signal_item)
  then have known: "map item_id (fst ?acc) = map item_id (fst acc)"
    by (simp add: item_ids_of_shape)
  have keys: "set (map fst (snd ?acc))
     = set (map fst (snd acc)) \<union> {i \<in> {iid}. i \<in> set (map item_id (fst acc))}"
    by (auto simp: signal_item_keys)
  have dist: "distinct (map fst (snd acc)) \<longrightarrow> distinct (map fst (snd ?acc))"
    by (simp add: signal_item_keys)
  from Cons [of ?acc] shape known keys dist show ?case
    by (simp only: foldl_Cons) (auto simp: simp del: set_map)
qed


lemma sub_loop:
  "id_shape (fst (foldl (signal_sub_item signal) acc ids)) = id_shape (fst acc)
   \<and> set (map fst (snd (foldl (signal_sub_item signal) acc ids)))
       = set (map fst (snd acc))
         \<union> {sid \<in> set ids. sid \<in> set (map sub_item_id (all_sub_items (fst acc)))}
   \<and> (distinct (map fst (snd acc))
        \<longrightarrow> distinct (map fst (snd (foldl (signal_sub_item signal) acc ids))))"
proof (induction ids arbitrary: acc)
  case Nil
  then show ?case by simp
next
  case (Cons sid ids)
  let ?acc = "signal_sub_item signal acc sid"
  have shape: "id_shape (fst ?acc) = id_shape (fst acc)" by (rule id_shape_signal_sub_item)
  then have known: "map sub_item_id (all_sub_items (fst ?acc))
                      = map sub_item_id (all_sub_items (fst acc))"
    by (simp add: sub_ids_of_shape)
  have keys: "set (map fst (snd ?acc))
     = set (map fst (snd acc))
       \<union> {i \<in> {sid}. i \<in> set (map sub_item_id (all_sub_items (fst acc)))}"
    by (auto simp: signal_sub_item_keys)
  have dist: "distinct (map fst (snd acc)) \<longrightarrow> distinct (map fst (snd ?acc))"
    by (simp add: signal_sub_item_keys)
  from Cons [of ?acc] shape known keys dist show ?case
    by (simp only: foldl_Cons) (auto simp: simp del: set_map)
qed

lemma transition_map_props:
  "id_shape (fst (transition_map signal items)) = id_shape items"
  "set (map fst (snd (transition_map signal items)))
     = {iid \<in> set (ps_item_ids signal). iid \<in> set (map item_id items)}"
  "distinct (map fst (snd (transition_map signal items)))"
  using item_loop [of signal "(items, [])" "ps_item_ids signal"]
  by (simp_all add: transition_map_def)

lemma sub_transition_map_props:
  "id_shape (fst (sub_transition_map signal items)) = id_shape items"
  "set (map fst (snd (sub_transition_map signal items)))
     = {sid \<in> set (ps_sub_item_ids signal). sid \<in> set (map sub_item_id (all_sub_items items))}"
  "distinct (map fst (snd (sub_transition_map signal items)))"
  using sub_loop [of signal "(items, [])" "ps_sub_item_ids signal"]
  by (simp_all add: sub_transition_map_def)

lemma transition_map_empty_iff:
  "(snd (transition_map signal items) = [])
     = (\<not> list_ex (\<lambda>iid. iid \<in> set (map item_id items)) (ps_item_ids signal))"
proof -
  have "(snd (transition_map signal items) = [])
          = (set (map fst (snd (transition_map signal items))) = {})" by simp
  then show ?thesis unfolding transition_map_props(2) by (auto simp: list_ex_iff)
qed

lemma sub_transition_map_empty_iff:
  "(snd (sub_transition_map signal items) = [])
     = (\<not> list_ex (\<lambda>sid. sid \<in> set (map sub_item_id (all_sub_items items)))
            (ps_sub_item_ids signal))"
proof -
  have "(snd (sub_transition_map signal items) = [])
          = (set (map fst (snd (sub_transition_map signal items))) = {})" by simp
  then show ?thesis unfolding sub_transition_map_props(2) by (auto simp: list_ex_iff)
qed

text \<open>A signal that names no known id leaves the checklist as it is.\<close>

lemma item_loop_unknown:
  "\<not> list_ex (\<lambda>iid. iid \<in> set (map item_id (fst acc))) ids
     \<Longrightarrow> foldl (signal_item signal) acc ids = acc"
proof (induction ids)
  case Nil
  then show ?case by simp
next
  case (Cons iid ids)
  then have "lookup_last (\<lambda>item. item_id item = iid) (fst acc) = None"
    by (simp add: lookup_last_None item_known_iff)
  then have "signal_item signal acc iid = acc" by (simp add: signal_item_def)
  with Cons show ?case by simp
qed

lemma sub_loop_unknown:
  "\<not> list_ex (\<lambda>sid. sid \<in> set (map sub_item_id (all_sub_items (fst acc)))) ids
     \<Longrightarrow> foldl (signal_sub_item signal) acc ids = acc"
proof (induction ids)
  case Nil
  then show ?case by simp
next
  case (Cons sid ids)
  then have "lookup_last (\<lambda>sub. sub_item_id sub = sid) (all_sub_items (fst acc)) = None"
    by (simp add: lookup_last_None sub_known_iff)
  then have "signal_sub_item signal acc sid = acc" by (simp add: signal_sub_item_def)
  with Cons show ?case by simp
qed

lemma sub_known_after_items:
  "map sub_item_id (all_sub_items (fst (transition_map signal items)))
     = map sub_item_id (all_sub_items items)"
  by (simp add: sub_ids_of_shape transition_map_props(1))

lemma apply_signal_unknown:
  assumes "\<not> references_known items signal"
  shows "apply_signal e latest (items, plog, k) signal = (items, plog, k)"
proof -
  from assms have i: "\<not> list_ex (\<lambda>iid. iid \<in> set (map item_id items)) (ps_item_ids signal)"
    and s: "\<not> list_ex (\<lambda>sid. sid \<in> set (map sub_item_id (all_sub_items items)))
                (ps_sub_item_ids signal)"
    by (simp_all add: references_known_def)
  have t: "transition_map signal items = (items, [])"
    using item_loop_unknown [of "(items, [])" "ps_item_ids signal" signal] i
    by (simp add: transition_map_def)
  have "sub_transition_map signal items = (items, [])"
    using sub_loop_unknown [of "(items, [])" "ps_sub_item_ids signal" signal] s
    by (simp add: sub_transition_map_def)
  with t show ?thesis by (simp add: apply_signal_def)
qed

lemma apply_signal_log:
  "fst (snd (apply_signal e latest (items, plog, k) signal)) =
     (let tmap = snd (transition_map signal items);
          smap = snd (sub_transition_map signal (fst (transition_map signal items)))
      in if tmap \<noteq> [] then
           plog @ [\<lparr>pl_entry_id = uuid4 e k, user_text = or_str latest [],
                    referenced_item_ids = map fst tmap, status_transitions = tmap,
                    sub_status_transitions = smap, contextual_notes = ps_context signal,
                    recorded_at = utcnow e k\<rparr>]
         else if smap \<noteq> [] then
           plog @ [\<lparr>pl_entry_id = uuid4 e k, user_text = or_str latest [],
                    referenced_item_ids = [], status_transitions = [],
                    sub_status_transitions = smap, contextual_notes = ps_context signal,
                    recorded_at = utcnow e k\<rparr>]
         else plog)"
  by (simp add: apply_signal_def Let_def split: prod.splits)

lemma apply_signal_items:
  "fst (apply_signal e latest (items, plog, k) signal)
     = fst (sub_transition_map signal (fst (transition_map signal items)))"
  by (simp add: apply_signal_def Let_def split: prod.splits)

lemma apply_signal_shape:
  "id_shape (fst (apply_signal e latest (items, plog, k) signal)) = id_shape items"
  by (simp add: apply_signal_items sub_transition_map_props(1) transition_map_props(1))

lemma references_known_maps:
  "references_known items signal
     = (snd (transition_map signal items) \<noteq> []
        \<or> snd (sub_transition_map signal (fst (transition_map signal items))) \<noteq> [])"
  by (simp add: references_known_def transition_map_empty_iff sub_transition_map_empty_iff
        sub_known_after_items)

lemma apply_signal_counter:
  "snd (snd (apply_signal e latest (items, plog, k) signal))
     = (if references_known items signal then k + 1 else k)"
  by (simp add: apply_signal_def Let_def references_known_maps split: prod.splits)

lemma apply_signal_count:
  "snd (snd (apply_signal e latest (items, plog, k) signal))
     = (if references_known items signal then k + 1 else k)
   \<and> length (fst (snd (apply_signal e latest (items, plog, k) signal)))
     = (if references_known items signal then length plog + 1 else length plog)
   \<and> take (length plog) (fst (snd (apply_signal e latest (items, plog, k) signal))) = plog"
  by (simp add: apply_signal_counter apply_signal_log Let_def references_known_maps)

lemma references_known_shape:
  "id_shape items = id_shape items' \<Longrightarrow> references_known items signal = references_known items' signal"
  by (simp add: references_known_def item_ids_of_shape sub_ids_of_shape)

lemma signals_loop:
  "id_shape (fst (foldl (apply_signal e latest) (items, plog, k) signals)) = id_shape items
   \<and> length (fst (snd (foldl (apply_signal e latest) (items, plog, k) signals)))
       = length plog + length (filter (references_known items) signals)
   \<and> take (length plog) (fst (snd (foldl (apply_signal e latest) (items, plog, k) signals)))
       = plog"
proof (induction signals arbitrary: items plog k)
  case Nil
  then show ?case by simp
next
  case (Cons signal signals)
  obtain items' plog' k' where step: "apply_signal e latest (items, plog, k) signal = (items', plog', k')"
    by (cases "apply_signal e latest (items, plog, k) signal") auto
  have shape: "id_shape items' = id_shape items"
    using apply_signal_shape [of e latest items plog k signal] step by simp
  have len: "length plog' = (if references_known items signal then length plog + 1 else length plog)"
    and pre: "take (length plog) plog' = plog"
    using apply_signal_count [of e latest items plog k signal] step by simp_all
  have same: "filter (references_known items') signals = filter (references_known items) signals"
    using references_known_shape [OF shape] by (intro filter_cong) simp_all
  let ?r = "fst (snd (foldl (apply_signal e latest) (items', plog', k') signals))"
  from Cons [of items' plog' k'] have
    r1: "id_shape (fst (foldl (apply_signal e latest) (items', plog', k') signals)) = id_shape items'"
    and r2: "length ?r = length plog' + length (filter (references_known items') signals)"
    and r3: "take (length plog') ?r = plog'" by simp_all
  have "take (length plog) ?r = take (length plog) (take (length plog') ?r)"
    using len by (simp add: min_def)
  with r3 pre have "take (length plog) ?r = plog" by simp
  with r1 r2 shape len same step show ?case by simp
qed


lemma handle_progress_loop:
  "progress_log (working (handle_interpret_progress_update e state output))
     = fst (snd (foldl (apply_signal e (latest_user_message (working state)))
                  (checklist_items (working state), progress_log (working state), 0)
                  (ipu_signals output)))"
  "checklist_items (working (handle_interpret_progress_update e state output))
     = fst (foldl (apply_signal e (latest_user_message (working state)))
                  (checklist_items (working state), progress_log (working state), 0)
                  (ipu_signals output))"
  by (simp_all add: handle_interpret_progress_update_def Let_def log_append_def
        set_last_transition_at_def split: prod.splits)

text \<open>
  Claim C3, as the code has it. Let \<open>before\<close> be the checklist, the progress log and the
  entry count when a signal of the output has its turn, \<open>tmap\<close> and \<open>smap\<close> the two
  transition maps the signal builds, and \<open>after\<close> the state of the loop behind it.
  \<^item> The handler's progress log starts with the log of \<open>after\<close>.
  \<^item> That log is the log of \<open>before\<close> with one entry appended when \<open>tmap\<close> is not empty:
    the entry of the item branch, whose referenced ids are the keys of \<open>tmap\<close> and which
    carries \<open>smap\<close> as well; with the entry of the sub-item branch (no referenced ids)
    when only \<open>smap\<close> is not empty; and with nothing otherwise.
  \<^item> One of the maps is not empty exactly when the signal names the id of an item or of
    a sub-item of the checklist; the maps' keys are those ids, each once. The status
    recorded for an id is the one the entry has after the signal, changed or not.
  \<^item> A signal that changes some status names a known id, so it is logged.
\<close>

theorem progress_entry_per_known_reference:
  fixes e :: env and state :: ResearchState and out :: InterpretProgressUpdateOutput
    and pre post :: "ProgressSignalModel list" and signal :: ProgressSignalModel
  assumes "ipu_signals out = pre @ signal # post"
  defines "latest \<equiv> latest_user_message (working state)"
  defines "before \<equiv> foldl (apply_signal e latest)
                      (checklist_items (working state), progress_log (working state), 0) pre"
  defines "after \<equiv> apply_signal e latest before signal"
  defines "tmap \<equiv> snd (transition_map signal (fst before))"
  defines "smap \<equiv> snd (sub_transition_map signal (fst (transition_map signal (fst before))))"
  shows "progress_log (working (handle_interpret_progress_update e state out))
           = fst (snd (foldl (apply_signal e latest) after post))
   \<and> take (length (fst (snd after)))
        (progress_log (working (handle_interpret_progress_update e state out)))
           = fst (snd after)
   \<and> fst (snd after) =
        (if tmap \<noteq> [] then
           fst (snd before)
           @ [\<lparr>pl_entry_id = uuid4 e (snd (snd before)), user_text = or_str latest [],
                referenced_item_ids = map fst tmap, status_transitions = tmap,
                sub_status_transitions = smap, contextual_notes = ps_context signal,
                recorded_at = utcnow e (snd (snd before))\<rparr>]
         else if smap \<noteq> [] then
           fst (snd before)
           @ [\<lparr>pl_entry_id = uuid4 e (snd (snd before)), user_text = or_str latest [],
                referenced_item_ids = [], status_transitions = [],
                sub_status_transitions = smap, contextual_notes = ps_context signal,
                recorded_at = utcnow e (snd (snd before))\<rparr>]
         else fst (snd before))
   \<and> (tmap \<noteq> [] \<or> smap \<noteq> []) = references_known (checklist_items (working state)) signal
   \<and> set (map fst tmap)
        = {iid \<in> set (ps_item_ids signal). iid \<in> set (map item_id (checklist_items (working state)))}
   \<and> distinct (map fst tmap)
   \<and> set (map fst smap)
        = {sid \<in> set (ps_sub_item_ids signal).
             sid \<in> set (map sub_item_id (all_sub_items (checklist_items (working state))))}
   \<and> distinct (map fst smap)
   \<and> (statuses (fst after) \<noteq> statuses (fst before)
        \<longrightarrow> references_known (checklist_items (working state)) signal)"
proof -
  let ?items0 = "checklist_items (working state)"
  let ?plog0 = "progress_log (working state)"
  obtain items plog k where before: "before = (items, plog, k)"
    by (cases before) auto
  have shape: "id_shape items = id_shape ?items0"
    using signals_loop [of e latest ?items0 ?plog0 0 pre] before
    by (simp add: before_def)
  have ids: "map item_id items = map item_id ?items0"
    using shape by (simp add: item_ids_of_shape)
  have sub_ids: "map sub_item_id (all_sub_items items) = map sub_item_id (all_sub_items ?items0)"
    using shape by (simp add: sub_ids_of_shape)
  have known: "references_known items signal = references_known ?items0 signal"
    using shape by (rule references_known_shape)
  have whole: "progress_log (working (handle_interpret_progress_update e state out))
           = fst (snd (foldl (apply_signal e latest) after post))"
    using assms(1) by (simp add: handle_progress_loop after_def before_def latest_def)
  obtain items' plog' k' where after: "after = (items', plog', k')"
    by (cases after) auto
  have prefix: "take (length (fst (snd after)))
        (progress_log (working (handle_interpret_progress_update e state out)))
           = fst (snd after)"
    using signals_loop [of e latest items' plog' k' post] whole after by simp
  have entry: "fst (snd after) =
        (if tmap \<noteq> [] then
           fst (snd before)
           @ [\<lparr>pl_entry_id = uuid4 e (snd (snd before)), user_text = or_str latest [],
                referenced_item_ids = map fst tmap, status_transitions = tmap,
                sub_status_transitions = smap, contextual_notes = ps_context signal,
                recorded_at = utcnow e (snd (snd before))\<rparr>]
         else if smap \<noteq> [] then
           fst (snd before)
           @ [\<lparr>pl_entry_id = uuid4 e (snd (snd before)), user_text = or_str latest [],
                referenced_item_ids = [], status_transitions = [],
                sub_status_transitions = smap, contextual_notes = ps_context signal,
                recorded_at = utcnow e (snd (snd before))\<rparr>]
         else fst (snd before))"
    using apply_signal_log [of e latest items plog k signal]
    by (simp add: after_def before tmap_def smap_def Let_def)
  have iff: "(tmap \<noteq> [] \<or> smap \<noteq> []) = references_known ?items0 signal"
    using references_known_maps [of items signal] known
    by (simp add: tmap_def smap_def before)
  have tkeys: "set (map fst tmap) = {iid \<in> set (ps_item_ids signal). iid \<in> set (map item_id ?items0)}"
    using transition_map_props(2) [of signal items] ids
    by (simp add: tmap_def before del: set_map)
  have tdist: "distinct (map fst tmap)"
    using transition_map_props(3) [of signal items] by (simp add: tmap_def before)
  have skeys: "set (map fst smap)
        = {sid \<in> set (ps_sub_item_ids signal). sid \<in> set (map sub_item_id (all_sub_items ?items0))}"
    using sub_transition_map_props(2) [of signal "fst (transition_map signal items)"]
      sub_known_after_items [of signal items] sub_ids
    by (simp add: smap_def before del: set_map)
  have sdist: "distinct (map fst smap)"
    using sub_transition_map_props(3) [of signal "fst (transition_map signal items)"]
    by (simp add: smap_def before)
  have change: "statuses (fst after) \<noteq> statuses (fst before) \<longrightarrow> references_known ?items0 signal"
  proof (rule impI, rule ccontr)
    assume ch: "statuses (fst after) \<noteq> statuses (fst before)"
      and "\<not> references_known ?items0 signal"
    then have "\<not> references_known items signal" using known by simp
    then have "after = before"
      using apply_signal_unknown [of items signal e latest plog k] by (simp add: after_def before)
    with ch show False by simp
  qed
  from whole prefix entry iff tkeys tdist skeys sdist change show ?thesis by blast
qed


lemma example_items: 
  "checklist_items (working three_items_state) = map example_item [''item-1'', ''item-2'', ''item-3'']"
  "progress_log (working three_items_state) = []"
  "latest_user_message (working three_items_state) = None"
  by (simp_all add: three_items_state_def example_state_def create_initial_state_def)

lemma apply_signal_done:
  "apply_signal example_env None
     ([example_item ''item-1'', example_item ''item-2'', example_item ''item-3''], [], 0)
     (item_signal ''item-1'' (Some COMPLETE) (Some ''done''))
   = ([(example_item ''item-1'')\<lparr>status := COMPLETE, item_notes := [''done'']\<rparr>,
       example_item ''item-2'', example_item ''item-3''],
      [\<lparr>pl_entry_id = ''u'', user_text = [], referenced_item_ids = [''item-1''],
        status_transitions = [(''item-1'', COMPLETE)], sub_status_transitions = [],
        contextual_notes = None, recorded_at = 1000\<rparr>],
      1)"
  by (simp add: apply_signal_def transition_map_def sub_transition_map_def signal_item_def
        signal_sub_item_def lookup_last_def touch_item_def item_signal_def example_item_def
        example_env_def or_str_def Let_def)

lemma apply_signal_same_status:
  "apply_signal example_env None
     ([example_item ''item-1'', example_item ''item-2'', example_item ''item-3''], [], 0)
     (item_signal ''item-1'' (Some PENDING) None)
   = ([example_item ''item-1'', example_item ''item-2'', example_item ''item-3''],
      [\<lparr>pl_entry_id = ''u'', user_text = [], referenced_item_ids = [''item-1''],
        status_transitions = [(''item-1'', PENDING)], sub_status_transitions = [],
        contextual_notes = None, recorded_at = 1000\<rparr>],
      1)"
  by (simp add: apply_signal_def transition_map_def sub_transition_map_def signal_item_def
        signal_sub_item_def lookup_last_def touch_item_def item_signal_def example_item_def
        example_env_def or_str_def Let_def)

theorem progress_entry_per_known_reference_witness:
  "map referenced_item_ids (progress_log (working (handle_interpret_progress_update example_env
       three_items_state (progress_output [item_signal ''item-1'' (Some COMPLETE) (Some ''done'')]))))
     = [[''item-1'']]
   \<and> progress_log (working (handle_interpret_progress_update example_env
       three_items_state (progress_output [item_signal ''item-9'' (Some COMPLETE) (Some ''done'')])))
     = []"
proof -
  let ?sig = "item_signal ''item-1'' (Some COMPLETE) (Some ''done'')"
  have hyp: "ipu_signals (progress_output [?sig]) = [] @ ?sig # []"
    by (simp add: progress_output_def)
  note known = progress_entry_per_known_reference [OF hyp, of example_env three_items_state]
  have 1: "map referenced_item_ids (progress_log (working (handle_interpret_progress_update
       example_env three_items_state (progress_output [?sig])))) = [[''item-1'']]"
    using known [THEN conjunct1]
    by (simp add: example_items apply_signal_done)
  let ?sig9 = "item_signal ''item-9'' (Some COMPLETE) (Some ''done'')"
  have hyp9: "ipu_signals (progress_output [?sig9]) = [] @ ?sig9 # []"
    by (simp add: progress_output_def)
  note unknown = progress_entry_per_known_reference [OF hyp9, of example_env three_items_state]
  have no_ref: "\<not> references_known (checklist_items (working three_items_state)) ?sig9"
    by (simp add: references_known_def example_items item_signal_def example_item_def)
  have 2: "progress_log (working (handle_interpret_progress_update
       example_env three_items_state (progress_output [?sig9]))) = []"
    using unknown [THEN conjunct1]
      unknown [THEN conjunct2, THEN conjunct2, THEN conjunct1]
      unknown [THEN conjunct2, THEN conjunct2, THEN conjunct2, THEN conjunct1] no_ref
    by (simp add: example_items)
  from 1 2 show ?thesis by simp
qed

text \<open>
  The converse fails (claim C3 as stated): a signal that names \<open>item-1\<close> and asks for the
  status the item already has is logged, and no status of the checklist has changed.
\<close>

theorem entry_without_status_transition:
  "length (progress_log (working (handle_interpret_progress_update example_env three_items_state
       (progress_output [item_signal ''item-1'' (Some PENDING) None]))))
     = length (progress_log (working three_items_state)) + 1
   \<and> statuses (checklist_items (working (handle_interpret_progress_update example_env
       three_items_state (progress_output [item_signal ''item-1'' (Some PENDING) None]))))
     = statuses (checklist_items (working three_items_state))"
  by (simp add: handle_progress_loop progress_output_def example_items apply_signal_same_status)

subsection \<open>Uniqueness of identifiers\<close>

lemma or_str_truthy: "truthy x \<Longrightarrow> or_str x y = or_str x []"
  by (auto simp: truthy_def or_str_def split: option.splits)

lemma or_str_falsy: "\<not> truthy x \<Longrightarrow> or_str x y = y"
  by (auto simp: truthy_def or_str_def split: option.splits)

lemma sub_change_distinct:
  assumes "distinct (map sub_item_id subs)" and "\<not> sub_add_collides subs change"
  shows "distinct (map sub_item_id (apply_sub_change parent_id subs change))"
proof (cases "rsu_action change = Add")
  case True
  show ?thesis
  proof (cases "truthy (rsu_summary change)")
    case False
    with True assms show ?thesis by (simp add: apply_sub_change_def)
  next
    case summary: True
    let ?new = "or_str (rsu_sub_item_id change)
                  (next_sub_item_id parent_id (map sub_item_id subs))"
    have "?new \<notin> set (map sub_item_id subs)"
    proof (cases "truthy (rsu_sub_item_id change)")
      case explicit: True
      then have "?new = or_str (rsu_sub_item_id change) []" by (rule or_str_truthy)
      moreover have "or_str (rsu_sub_item_id change) [] \<notin> set (map sub_item_id subs)"
        using assms(2) summary explicit \<open>rsu_action change = Add\<close>
        by (simp add: sub_add_collides_def)
      ultimately show ?thesis by simp
    next
      case False
      then show ?thesis
        using next_sub_item_id_fresh [of parent_id "map sub_item_id subs"]
        by (simp add: or_str_falsy)
    qed
    with True summary assms(1) show ?thesis
      by (simp add: apply_sub_change_def Let_def)
  qed
next
  case False
  with assms(1) show ?thesis
    by (auto simp: apply_sub_change_def map_update_last distinct_map_filter
             split: option.splits)
qed

lemma sub_changes_distinct:
  "distinct (map sub_item_id subs) \<Longrightarrow> sub_adds_fresh parent_id subs changes
     \<Longrightarrow> distinct (map sub_item_id (foldl (apply_sub_change parent_id) subs changes))"
proof (induction changes arbitrary: subs)
  case Nil
  then show ?case by simp
next
  case (Cons change changes)
  then have "distinct (map sub_item_id (apply_sub_change parent_id subs change))"
    by (simp add: sub_change_distinct)
  with Cons show ?case by simp
qed

lemma apply_sub_item_updates_id [simp]:
  "item_id (apply_sub_item_updates item changes) = item_id item"
  by (simp add: apply_sub_item_updates_def)

lemma apply_sub_item_updates_distinct:
  assumes "distinct (map sub_item_id (sub_items item))"
    and "sub_adds_fresh (item_id item) (sub_items item) changes"
  shows "distinct (map sub_item_id (sub_items (apply_sub_item_updates item changes)))"
  using assms by (simp add: apply_sub_item_updates_def sub_changes_distinct)

lemma inj_on_numbered: "inj_on (\<lambda>j. pfx @ py_str (int j + 1)) A"
proof (rule inj_onI)
  fix x y :: nat
  assume "pfx @ py_str (int x + 1) = pfx @ py_str (int y + 1)"
  then have "py_str (int x + 1) = py_str (int y + 1)" by simp
  then have "int x + 1 = int y + 1" by (intro py_str_inject) simp_all
  then show "x = y" by simp
qed

lemma build_sub_items_distinct:
  "distinct (map sub_item_id (build_sub_items_from_bullets parent_id bullets))"
proof -
  have "map sub_item_id (build_sub_items_from_bullets parent_id bullets)
          = map (\<lambda>j. (parent_id @ ''-'') @ py_str (int j + 1)) [0..<length bullets]"
    by (simp add: build_sub_items_ids)
  then show ?thesis
    by (simp only: distinct_map distinct_upt inj_on_numbered simp_thms)
qed


lemma lookup_last_Cons:
  "lookup_last Q (x # xs)
     = (case lookup_last Q xs of Some y \<Rightarrow> Some y | None \<Rightarrow> if Q x then Some x else None)"
proof -
  have "find Q (ys @ [x])
          = (case find Q ys of Some y \<Rightarrow> Some y | None \<Rightarrow> if Q x then Some x else None)"
    for ys by (induction ys) simp_all
  then show ?thesis by (simp add: lookup_last_def)
qed

lemma list_all_update_last:
  assumes "list_all P xs" and "\<And>x. lookup_last Q xs = Some x \<Longrightarrow> P (f x)"
  shows "list_all P (update_last Q f xs)"
  using assms
proof (induction xs)
  case Nil
  then show ?case by simp
next
  case (Cons x xs)
  show ?case
  proof (cases "list_ex Q xs")
    case True
    then obtain y where y: "lookup_last Q xs = Some y"
      using lookup_last_None [of Q xs] by (cases "lookup_last Q xs") auto
    have "list_all P (update_last Q f xs)"
    proof (rule Cons.IH)
      show "list_all P xs" using Cons.prems(1) by simp
      fix z assume "lookup_last Q xs = Some z"
      then have "lookup_last Q (x # xs) = Some z" by (simp add: lookup_last_Cons)
      then show "P (f z)" by (rule Cons.prems(2))
    qed
    with True Cons.prems(1) show ?thesis by simp
  next
    case False
    then have none: "lookup_last Q xs = None" by (simp add: lookup_last_None)
    show ?thesis
    proof (cases "Q x")
      case True
      with none have "lookup_last Q (x # xs) = Some x" by (simp add: lookup_last_Cons)
      then have "P (f x)" by (rule Cons.prems(2))
      with False True Cons.prems(1) show ?thesis by simp
    next
      case no: False
      with False Cons.prems(1) show ?thesis by simp
    qed
  qed
qed

lemma update_step_unique:
  assumes "ids_unique items" and "\<not> update_collides items u"
  shows "ids_unique (apply_update items u)"
proof -
  from assms(1) have dist: "distinct (map item_id items)"
    and subs: "list_all (\<lambda>item. distinct (map sub_item_id (sub_items item))) items"
    by (simp_all add: ids_unique_def)
  show ?thesis
  proof (cases "ru_action u")
    case Add
    show ?thesis
    proof (cases "truthy (ru_summary u)")
      case False
      with Add assms(1) show ?thesis by (simp add: apply_update_def)
    next
      case summary: True
      let ?new = "or_str (ru_item_id u) (next_item_id (map item_id items))"
      let ?item = "\<lparr>item_id = ?new, summary = or_str (ru_summary u) [],
                     detail = ru_detail u, status = PENDING,
                     success_criteria = ru_success_criteria u, item_notes = [],
                     sub_items = build_sub_items_from_bullets ?new (ru_sub_items u)\<rparr>"
      let ?added = "if ru_sub_item_updates u \<noteq> []
                    then apply_sub_item_updates ?item (ru_sub_item_updates u) else ?item"
      from assms(2) Add summary have
        no_clash: "\<not> (truthy (ru_item_id u) \<and> ?new \<in> set (map item_id items))"
        and fresh_subs: "sub_adds_fresh ?new (build_sub_items_from_bullets ?new (ru_sub_items u))
                           (ru_sub_item_updates u)"
        by (simp_all add: update_collides_def Let_def)
      have new: "?new \<notin> set (map item_id items)"
      proof (cases "truthy (ru_item_id u)")
        case True
        with no_clash show ?thesis by simp
      next
        case False
        then show ?thesis
          using next_item_id_fresh [of "map item_id items"] by (simp add: or_str_falsy)
      qed
      have id: "item_id ?added = ?new" by simp
      have "distinct (map sub_item_id (sub_items (apply_sub_item_updates ?item (ru_sub_item_updates u))))"
        using fresh_subs
        by (intro apply_sub_item_updates_distinct) (simp_all add: build_sub_items_distinct)
      then have sub: "distinct (map sub_item_id (sub_items ?added))"
        by (simp add: build_sub_items_distinct)
      have "apply_update items u = items @ [?added]"
        using Add summary by (simp add: apply_update_def Let_def)
      with dist subs new id sub show ?thesis
        by (simp add: ids_unique_def del: apply_sub_item_updates_id)
    qed
  next
    case Remove
    show ?thesis
    proof (cases "ru_item_id u")
      case None
      with Remove assms(1) show ?thesis by (simp add: apply_update_def)
    next
      case (Some iid)
      have "ids_unique (filter (\<lambda>item. item_id item \<noteq> iid) items)"
        using dist subs by (simp add: ids_unique_def distinct_map_filter list_all_iff)
      with Remove Some assms(1) show ?thesis by (simp add: apply_update_def)
    qed
  next
    case Update
    show ?thesis
    proof (cases "ru_item_id u")
      case None
      with Update assms(1) show ?thesis by (simp add: apply_update_def)
    next
      case (Some iid)
      show ?thesis
      proof (cases "iid \<noteq> [] \<and> iid \<in> set (map item_id items)")
        case False
        with Update Some assms(1) show ?thesis by (auto simp: apply_update_def)
      next
        case True
        let ?f = "\<lambda>item. apply_sub_item_updates
                      (item\<lparr>summary := or_str (ru_summary u) (summary item),
                            detail := or_opt (ru_detail u) (detail item),
                            success_criteria :=
                              or_opt (ru_success_criteria u) (success_criteria item),
                            sub_items :=
                              (if ru_sub_items u \<noteq> []
                               then build_sub_items_from_bullets (item_id item) (ru_sub_items u)
                               else sub_items item)\<rparr>)
                      (ru_sub_item_updates u)"
        have eq: "apply_update items u = update_last (\<lambda>item. item_id item = iid) ?f items"
          using Update Some True by (simp add: apply_update_def)
        have ids: "map item_id (update_last (\<lambda>item. item_id item = iid) ?f items)
                     = map item_id items"
          by (rule map_update_last) simp
        have "list_all (\<lambda>item. distinct (map sub_item_id (sub_items item)))
                (update_last (\<lambda>item. item_id item = iid) ?f items)"
        proof (rule list_all_update_last [OF subs])
          fix item
          assume found: "lookup_last (\<lambda>item. item_id item = iid) items = Some item"
          then have mem: "item \<in> set items" and iid: "item_id item = iid"
            using lookup_last_Some [OF found] by simp_all
          let ?subs0 = "if ru_sub_items u \<noteq> []
                        then build_sub_items_from_bullets iid (ru_sub_items u)
                        else sub_items item"
          have d0: "distinct (map sub_item_id ?subs0)"
            using subs mem by (simp add: build_sub_items_distinct list_all_iff)
          have "sub_adds_fresh iid ?subs0 (ru_sub_item_updates u)"
            using assms(2) Update Some True found by (simp add: update_collides_def)
          with d0 iid show "distinct (map sub_item_id (sub_items (?f item)))"
            by (intro apply_sub_item_updates_distinct) (simp_all split: if_splits)
        qed
        with eq ids dist show ?thesis by (simp add: ids_unique_def)
      qed
    qed
  qed
qed

lemma updates_unique:
  "ids_unique items \<Longrightarrow> adds_fresh items us \<Longrightarrow> ids_unique (foldl apply_update items us)"
proof (induction us arbitrary: items)
  case Nil
  then show ?case by simp
next
  case (Cons u us)
  then have "ids_unique (apply_update items u)" by (simp add: update_step_unique)
  with Cons show ?case by simp
qed


lemma sub_generated_fresh:
  "list_all (\<lambda>c. \<not> (rsu_action c = Add \<and> truthy (rsu_sub_item_id c))) changes
     \<Longrightarrow> sub_adds_fresh parent_id subs changes"
  by (induction changes arbitrary: subs) (auto simp: sub_add_collides_def)

lemma generated_not_colliding:
  assumes "\<not> (ru_action u = Add \<and> truthy (ru_item_id u))"
    and "list_all (\<lambda>c. \<not> (rsu_action c = Add \<and> truthy (rsu_sub_item_id c)))
           (ru_sub_item_updates u)"
  shows "\<not> update_collides items u"
  using assms sub_generated_fresh [OF assms(2)]
  by (auto simp: update_collides_def Let_def split: option.splits)

lemma generated_fresh: "generates_ids us \<Longrightarrow> adds_fresh items us"
  unfolding generates_ids_def
  by (induction us arbitrary: items) (simp_all add: generated_not_colliding)

lemma ids_unique_shape:
  "ids_unique items
     = (distinct (map fst (id_shape items)) \<and> list_all (\<lambda>p. distinct (snd p)) (id_shape items))"
  by (simp add: ids_unique_def id_shape_def comp_def list_all_iff)

lemma initial_checklist_unique:
  "ids_unique (checklist_items (working (handle_generate_initial_checklist e state out)))"
proof -
  let ?items = "checklist_items (working (handle_generate_initial_checklist e state out))"
  have ids: "map item_id ?items
               = map (\<lambda>k. ''item-'' @ py_str (int k + 1)) [0..<length (gic_items out)]"
    by (simp add: handle_generate_initial_checklist_def log_append_def Let_def
          map_enumerate_nth comp_def)
  have "distinct (map item_id ?items)"
    unfolding ids by (simp only: distinct_map distinct_upt inj_on_numbered simp_thms)
  moreover have "list_all (\<lambda>item. distinct (map sub_item_id (sub_items item))) ?items"
    by (simp add: handle_generate_initial_checklist_def log_append_def Let_def list_all_iff
          build_sub_items_distinct split: prod.splits)
  ultimately show ?thesis by (simp add: ids_unique_def)
qed

lemma progress_update_shape:
  "id_shape (checklist_items (working (handle_interpret_progress_update e state out)))
     = id_shape (checklist_items (working state))"
  using signals_loop [of e "latest_user_message (working state)"
          "checklist_items (working state)" "progress_log (working state)" 0 "ipu_signals out"]
  by (simp add: handle_progress_loop)


lemma apply_update_add_explicit:
  assumes "ru_action u = Add" and "truthy (ru_summary u)"
    and "ru_item_id u = Some iid" and "iid \<noteq> []"
  shows "\<exists>new. apply_update cur u = cur @ [new] \<and> item_id new = iid"
  using assms by (simp add: apply_update_def Let_def or_str_def)

lemma py_str_1: "py_str 1 = ''1''"
  by (simp add: py_str_def str_nat.simps digit_char_def)

lemma three_items_unique: "ids_unique (checklist_items (working three_items_state))"
  by (simp add: ids_unique_def three_items_state_def example_item_def)

text \<open>
  Claim C1, as the code has it. From a state with unique identifiers every transition
  and every skill-result handler yields a state with unique identifiers, where for the
  incorporate-refinements handler no add instruction may collide: each explicit
  \<open>item_id\<close> or \<open>sub_item_id\<close> of an applied add instruction is absent from its list
  when the instruction has its turn. That is so in particular when no add instruction
  carries an explicit id, the generated ids being new. The initial-checklist handler
  yields unique identifiers from any state. When the last instruction of an output is an
  applied add instruction whose explicit \<open>item_id\<close> is the id of an item of the checklist
  it meets, the handler's checklist is that checklist with a second item of that id at
  its end, and its identifiers are not unique. Numerals stay within the interpreter's
  limit on integer conversions, as said with \<open>py_int\<close>.
\<close>

theorem unique_ids_preserved:
  assumes "ids_unique (checklist_items (working state))"
  shows "ids_unique (checklist_items (working (ingest_user_description e state message)))
   \<and> ids_unique (checklist_items (working (record_user_feedback e state message)))
   \<and> ids_unique (checklist_items (working (ingest_progress_input e state message)))
   \<and> ids_unique (checklist_items (working (mark_checklist_approved e state)))
   \<and> ids_unique (checklist_items (working (mark_checklist_rejected e state message)))
   \<and> ids_unique (checklist_items (working (record_save_result e state artifact path)))
   \<and> ids_unique (checklist_items (working (activate_tracking_mode e state)))
   \<and> ids_unique (checklist_items (working (acknowledge_progress_ack e state)))
   \<and> ids_unique (checklist_items (working (acknowledge_summary_delivery e state)))
   \<and> ids_unique (checklist_items (working
         (handle_generate_initial_checklist e state checklist_out)))
   \<and> ids_unique (checklist_items (working
         (handle_generate_refinement_questions e state questions_out)))
   \<and> (adds_fresh (checklist_items (working state)) (ir_updates refinements_out) \<longrightarrow>
        ids_unique (checklist_items (working
          (handle_incorporate_refinements e state refinements_out))))
   \<and> (generates_ids (ir_updates refinements_out) \<longrightarrow>
        ids_unique (checklist_items (working
          (handle_incorporate_refinements e state refinements_out))))
   \<and> (\<forall>pre u iid.
          ir_updates refinements_out = pre @ [u]
          \<and> ru_action u = Add \<and> truthy (ru_summary u)
          \<and> ru_item_id u = Some iid \<and> iid \<noteq> []
          \<and> iid \<in> set (map item_id (foldl apply_update (checklist_items (working state)) pre))
          \<longrightarrow>
            (\<exists>new. checklist_items (working
                      (handle_incorporate_refinements e state refinements_out))
                    = foldl apply_update (checklist_items (working state)) pre @ [new]
                  \<and> item_id new = iid)
            \<and> \<not> ids_unique (checklist_items (working
                  (handle_incorporate_refinements e state refinements_out))))
   \<and> ids_unique (checklist_items (working
         (handle_interpret_progress_update e state progress_out)))
   \<and> ids_unique (checklist_items (working (handle_completion_summary e state summary_out)))"
proof -
  have 1: "ids_unique (checklist_items (working (ingest_user_description e state message)))"
    using assms
    by (simp add: ingest_user_description_def Let_def log_append_def set_phase_def
          set_last_transition_at_def)
  have 2: "ids_unique (checklist_items (working (record_user_feedback e state message)))"
    using assms
    by (simp add: record_user_feedback_def Let_def log_append_def set_phase_def
          set_last_transition_at_def)
  have 3: "ids_unique (checklist_items (working (ingest_progress_input e state message)))"
    using assms
    by (simp add: ingest_progress_input_def Let_def log_append_def set_phase_def
          set_last_transition_at_def)
  have 4: "ids_unique (checklist_items (working (mark_checklist_approved e state)))"
    using assms by (simp add: mark_checklist_approved_def)
  have 5: "ids_unique (checklist_items (working (mark_checklist_rejected e state message)))"
    using assms
    by (simp add: mark_checklist_rejected_def Let_def log_append_def set_phase_def
          set_last_transition_at_def)
  have 6: "ids_unique (checklist_items (working (record_save_result e state artifact path)))"
    using assms by (simp add: record_save_result_def log_append_def)
  have 7: "ids_unique (checklist_items (working (activate_tracking_mode e state)))"
    using assms by (simp add: activate_tracking_mode_def split: option.splits)
  have 8: "ids_unique (checklist_items (working (acknowledge_progress_ack e state)))"
    using assms by (simp add: acknowledge_progress_ack_def)
  have 9: "ids_unique (checklist_items (working (acknowledge_summary_delivery e state)))"
    using assms
    by (simp add: acknowledge_summary_delivery_def set_phase_def set_last_transition_at_def)
  have 10: "ids_unique (checklist_items (working
         (handle_generate_initial_checklist e state checklist_out)))"
    by (rule initial_checklist_unique)
  have 11: "ids_unique (checklist_items (working
         (handle_generate_refinement_questions e state questions_out)))"
    using assms by (simp add: handle_generate_refinement_questions_def Let_def)
  have 12: "ids_unique (checklist_items (working
          (handle_incorporate_refinements e state refinements_out)))"
    if "adds_fresh (checklist_items (working state)) (ir_updates refinements_out)"
    using assms that by (simp add: handle_incorporate_items updates_unique)
  have 13: "ids_unique (checklist_items (working
          (handle_incorporate_refinements e state refinements_out)))"
    if "generates_ids (ir_updates refinements_out)"
    using that 12 generated_fresh by blast
  have dup: "(\<exists>new. checklist_items (working
                      (handle_incorporate_refinements e state refinements_out))
                    = foldl apply_update (checklist_items (working state)) pre @ [new]
                  \<and> item_id new = iid)
            \<and> \<not> ids_unique (checklist_items (working
                  (handle_incorporate_refinements e state refinements_out)))"
    if "ir_updates refinements_out = pre @ [u]
          \<and> ru_action u = Add \<and> truthy (ru_summary u)
          \<and> ru_item_id u = Some iid \<and> iid \<noteq> []
          \<and> iid \<in> set (map item_id (foldl apply_update (checklist_items (working state)) pre))"
    for pre u iid
    using that apply_update_add_explicit [of u iid "foldl apply_update (checklist_items (working state)) pre"]
    by (auto simp: handle_incorporate_items ids_unique_def)
  have 14: "ids_unique (checklist_items (working
         (handle_interpret_progress_update e state progress_out)))"
    using assms by (simp add: ids_unique_shape progress_update_shape)
  have 15: "ids_unique (checklist_items (working (handle_completion_summary e state summary_out)))"
    using assms by (simp add: handle_completion_summary_def log_append_def)
  from 1 2 3 4 5 6 7 8 9 10 11 12 13 dup 14 15 show ?thesis by blast
qed

theorem unique_ids_preserved_witness:
  "ids_unique (checklist_items (working (handle_incorporate_refinements example_env
      three_items_state (refinement_output [instruction Add (Some ''item-7'') (Some ''Ship it'')]))))
   \<and> ids_unique (checklist_items (working (handle_incorporate_refinements example_env
      three_items_state (refinement_output [instruction Remove (Some ''item-2'') None]))))
   \<and> ids_unique (checklist_items (working
        (ingest_user_description example_env three_items_state ''Launch v2'')))"
proof -
  note inv = unique_ids_preserved [OF three_items_unique, where e = example_env]
  have fresh: "adds_fresh (checklist_items (working three_items_state))
          (ir_updates (refinement_output [instruction Add (Some ''item-7'') (Some ''Ship it'')]))"
    by (simp add: three_items_state_def refinement_output_def instruction_def
          update_collides_def example_item_def truthy_def or_str_def Let_def)
  have gen: "generates_ids
          (ir_updates (refinement_output [instruction Remove (Some ''item-2'') None]))"
    by (simp add: generates_ids_def refinement_output_def instruction_def)
  from inv [where refinements_out =
              "refinement_output [instruction Add (Some ''item-7'') (Some ''Ship it'')]"]
    fresh
  have a: "ids_unique (checklist_items (working (handle_incorporate_refinements example_env
      three_items_state (refinement_output [instruction Add (Some ''item-7'') (Some ''Ship it'')]))))"
    by blast
  from inv [where refinements_out =
              "refinement_output [instruction Remove (Some ''item-2'') None]"] gen
  have b: "ids_unique (checklist_items (working (handle_incorporate_refinements example_env
      three_items_state (refinement_output [instruction Remove (Some ''item-2'') None]))))"
    by blast
  from inv [where message = "''Launch v2''"]
  have c: "ids_unique (checklist_items (working
        (ingest_user_description example_env three_items_state ''Launch v2'')))"
    by blast
  from a b c show ?thesis by blast
qed

text \<open>
  Without that condition the claim fails (claim C1 as stated): an add instruction with
  the explicit id \<open>item-1\<close> puts a second item of that id on the checklist, and a
  sub-item add with the explicit id \<open>item-7-1\<close> repeats the id of the first sub-item
  of its new parent.
\<close>

theorem explicit_id_breaks_uniqueness:
  "ids_unique (checklist_items (working three_items_state))
   \<and> \<not> ids_unique (checklist_items (working (handle_incorporate_refinements example_env
        three_items_state (refinement_output [instruction Add (Some ''item-1'') (Some ''Ship it'')]))))
   \<and> \<not> ids_unique (checklist_items (working (handle_incorporate_refinements example_env
        three_items_state
        (refinement_output
           [(instruction Add (Some ''item-7'') (Some ''Ship it''))
              \<lparr>ru_sub_items := [sub_bullet ''Tag the release''],
               ru_sub_item_updates :=
                 [sub_instruction Add (Some ''item-7-1'') (Some ''Announce'')]\<rparr>]))))"
proof -
  have a: "\<not> ids_unique (checklist_items (working (handle_incorporate_refinements example_env
        three_items_state (refinement_output [instruction Add (Some ''item-1'') (Some ''Ship it'')]))))"
    by (simp add: handle_incorporate_items refinement_output_def instruction_def
          three_items_state_def example_item_def apply_update_def truthy_def or_str_def
          Let_def ids_unique_def)
  have b: "\<not> ids_unique (checklist_items (working (handle_incorporate_refinements example_env
        three_items_state
        (refinement_output
           [(instruction Add (Some ''item-7'') (Some ''Ship it''))
              \<lparr>ru_sub_items := [sub_bullet ''Tag the release''],
               ru_sub_item_updates :=
                 [sub_instruction Add (Some ''item-7-1'') (Some ''Announce'')]\<rparr>]))))"
    by (simp add: handle_incorporate_items refinement_output_def instruction_def
          sub_instruction_def sub_bullet_def three_items_state_def example_item_def
          apply_update_def apply_sub_item_updates_def apply_sub_change_def
          build_sub_items_from_bullets_def truthy_def or_str_def Let_def ids_unique_def
          py_str_1)
  from three_items_unique a b show ?thesis by blast
qed

text \<open>
  A generated id counts like an explicit one: on the checklist \<open>item-1\<close>,
  \<open>item-5\<close> with a unit separator behind it, the numeral of the second id is no number
  to \<^verbatim>\<open>int\<close>, an add instruction without an id is given \<open>item-2\<close>, and a following add
  instruction with the explicit id \<open>item-2\<close> collides with it.
\<close>

lemma next_item_id_separator:
  "next_item_id [''item-1'', ''item-5'' @ [CHR 0x1F]] = ''item-2''"
  unfolding next_item_id_def max_item_index_separator by (simp add: py_str_small)

lemma generated_then_explicit_collides:
  "map item_id (checklist_items (working (handle_incorporate_refinements example_env
       separator_state
       (refinement_output [instruction Add None (Some ''Ship it''),
                           instruction Add (Some ''item-2'') (Some ''Tag it'')]))))
     = [''item-1'', ''item-5'' @ [CHR 0x1F], ''item-2'', ''item-2'']
   \<and> \<not> adds_fresh (checklist_items (working separator_state))
         [instruction Add None (Some ''Ship it''),
          instruction Add (Some ''item-2'') (Some ''Tag it'')]"
proof -
  have first: "apply_update [example_item ''item-1'', example_item (''item-5'' @ [CHR 0x1F])]
                 (instruction Add None (Some ''Ship it''))
           = [example_item ''item-1'', example_item (''item-5'' @ [CHR 0x1F]),
              (example_item ''item-2'')\<lparr>summary := ''Ship it''\<rparr>]"
    using next_item_id_separator
    by (simp add: apply_update_def instruction_def example_item_def truthy_def or_str_def
          Let_def build_sub_items_from_bullets_def)
  have items: "checklist_items (working separator_state)
                 = [example_item ''item-1'', example_item (''item-5'' @ [CHR 0x1F])]"
    by (simp add: separator_state_def)
  have ids: "map item_id (checklist_items (working (handle_incorporate_refinements example_env
       separator_state
       (refinement_output [instruction Add None (Some ''Ship it''),
                           instruction Add (Some ''item-2'') (Some ''Tag it'')]))))
     = [''item-1'', ''item-5'' @ [CHR 0x1F], ''item-2'', ''item-2'']"
    unfolding handle_incorporate_items items
    by (simp add: refinement_output_def apply_update_def instruction_def example_item_def
          truthy_def or_str_def Let_def build_sub_items_from_bullets_def
          next_item_id_separator [simplified])
  have "update_collides
          [example_item ''item-1'', example_item (''item-5'' @ [CHR 0x1F]),
           (example_item ''item-2'')\<lparr>summary := ''Ship it''\<rparr>]
          (instruction Add (Some ''item-2'') (Some ''Tag it''))"
    by (simp add: update_collides_def instruction_def example_item_def truthy_def or_str_def
          Let_def)
  then have "\<not> adds_fresh (checklist_items (working separator_state))
         [instruction Add None (Some ''Ship it''),
          instruction Add (Some ''item-2'') (Some ''Tag it'')]"
    unfolding items by (simp add: first [simplified])
  with ids show ?thesis by blast
qed

end
